theory Spec2Isabelle
  imports Complex_Main "HOL-Library.Log_Nat"
begin

section \<open>Floating-point values of the grid\<close>

text \<open>
  The habitat grid, its coordinate axes and the query coordinates are NumPy
  \<^verbatim>\<open>float64\<close> values. A value is a finite number, one of the two infinities, or
  not-a-number. A finite value is the real number it denotes; every arithmetic operation
  computes the exact real result and rounds it to the nearest representable double
  (ties to even, overflow to an infinity), as IEEE 754 prescribes. The sign of zero is
  not represented: both zeros are \<open>Fin 0\<close>. The dataset is taken to hold
  \<^verbatim>\<open>float64\<close> arrays, \<^verbatim>\<open>H_index\<close> being two-dimensional and stored row
  after row.
\<close>

datatype fval = Fin real | PInf | NInf | NaN

fun isnan :: "fval \<Rightarrow> bool" where
  "isnan NaN = True"
| "isnan _ = False"

fun isfinite :: "fval \<Rightarrow> bool" where
  "isfinite (Fin _) = True"
| "isfinite _ = False"

text \<open>Comparison \<open>a <= b\<close>: false as soon as one side is not-a-number.\<close>

fun fle :: "fval \<Rightarrow> fval \<Rightarrow> bool" where
  "fle NaN _ = False"
| "fle _ NaN = False"
| "fle NInf _ = True"
| "fle _ PInf = True"
| "fle (Fin a) (Fin b) = (a \<le> b)"
| "fle PInf _ = False"
| "fle (Fin _) NInf = False"

definition flt :: "fval \<Rightarrow> fval \<Rightarrow> bool" where
  "flt a b = (fle a b \<and> \<not> fle b a)"

definition fge :: "fval \<Rightarrow> fval \<Rightarrow> bool" where
  "fge a b = fle b a"

subsection \<open>Rounding to the nearest double\<close>

definition pow2 :: "int \<Rightarrow> real" where
  "pow2 e = (if 0 \<le> e then 2 ^ nat e else 1 / 2 ^ nat (- e))"

text \<open>The binary exponent of a positive real: the \<open>k\<close> with \<open>2^k <= a < 2^(k+1)\<close>.\<close>

definition ilog2 :: "real \<Rightarrow> int" where
  "ilog2 a = (if 1 \<le> a then bitlen \<lfloor>a\<rfloor> - 1 else - bitlen (\<lceil>1 / a\<rceil> - 1))"

definition round_half_even :: "real \<Rightarrow> int" where
  "round_half_even m =
     (let f = \<lfloor>m\<rfloor>; r = m - of_int f
      in if r < 1 / 2 then f else if 1 / 2 < r then f + 1 else if even f then f else f + 1)"

text \<open>
  A double has a 53-bit significand and an exponent between -1022 and 1023; below
  \<open>2^-1022\<close> the spacing stays \<open>2^-1074\<close> (subnormal numbers). A result of magnitude
  \<open>2^1024\<close> or more after rounding is an infinity.
\<close>

definition round64 :: "real \<Rightarrow> fval" where
  "round64 x =
     (if x = 0 then Fin 0
      else let a = \<bar>x\<bar>;
               e = max (ilog2 a) (- 1022) - 52;
               r = of_int (round_half_even (a / pow2 e)) * pow2 e
           in if 2 ^ 1024 \<le> r then (if x < 0 then NInf else PInf)
              else Fin (if x < 0 then - r else r))"

subsection \<open>Arithmetic\<close>

fun is_neg :: "fval \<Rightarrow> bool" where
  "is_neg NInf = True"
| "is_neg (Fin a) = (a < 0)"
| "is_neg _ = False"

fun fneg :: "fval \<Rightarrow> fval" where
  "fneg (Fin a) = Fin (- a)"
| "fneg PInf = NInf"
| "fneg NInf = PInf"
| "fneg NaN = NaN"

fun fabs :: "fval \<Rightarrow> fval" where
  "fabs (Fin a) = Fin \<bar>a\<bar>"
| "fabs PInf = PInf"
| "fabs NInf = PInf"
| "fabs NaN = NaN"

fun fadd :: "fval \<Rightarrow> fval \<Rightarrow> fval" where
  "fadd NaN _ = NaN"
| "fadd _ NaN = NaN"
| "fadd PInf NInf = NaN"
| "fadd NInf PInf = NaN"
| "fadd PInf _ = PInf"
| "fadd _ PInf = PInf"
| "fadd NInf _ = NInf"
| "fadd _ NInf = NInf"
| "fadd (Fin a) (Fin b) = round64 (a + b)"

definition fsub :: "fval \<Rightarrow> fval \<Rightarrow> fval" where
  "fsub a b = fadd a (fneg b)"

fun fmul :: "fval \<Rightarrow> fval \<Rightarrow> fval" where
  "fmul NaN _ = NaN"
| "fmul _ NaN = NaN"
| "fmul (Fin a) (Fin b) = round64 (a * b)"
| "fmul x y =
     (if x = Fin 0 \<or> y = Fin 0 then NaN
      else if is_neg x = is_neg y then PInf else NInf)"

fun fdiv :: "fval \<Rightarrow> fval \<Rightarrow> fval" where
  "fdiv NaN _ = NaN"
| "fdiv _ NaN = NaN"
| "fdiv (Fin a) (Fin b) =
     (if b = 0 then (if a = 0 then NaN else if a < 0 then NInf else PInf)
      else round64 (a / b))"
| "fdiv (Fin _) _ = Fin 0"
| "fdiv x (Fin b) = (if is_neg x = (b < 0) then PInf else NInf)"
| "fdiv _ _ = NaN"

section \<open>NumPy operations used by the handlers\<close>

datatype py_exc =
    FileNotFoundError
  | KeyError
  | ValueError
  | IndexError
  | OSError
  | HTTPException nat

text \<open>
  \<^verbatim>\<open>np.fmin\<close> and \<^verbatim>\<open>np.fmax\<close> keep the first argument when it compares
  as required or when the second is not-a-number; \<^verbatim>\<open>np.nanmin\<close> and
  \<^verbatim>\<open>np.nanmax\<close> reduce the array with them and raise \<^verbatim>\<open>ValueError\<close> on an
  array of size zero. An array of not-a-numbers only reduces to not-a-number.
\<close>

definition fmin :: "fval \<Rightarrow> fval \<Rightarrow> fval" where
  "fmin a b = (if fle a b \<or> isnan b then a else b)"

definition fmax :: "fval \<Rightarrow> fval \<Rightarrow> fval" where
  "fmax a b = (if fge a b \<or> isnan b then a else b)"

fun nanmin :: "fval list \<Rightarrow> py_exc + fval" where
  "nanmin [] = Inl ValueError"
| "nanmin (x # xs) = Inr (foldl fmin x xs)"

fun nanmax :: "fval list \<Rightarrow> py_exc + fval" where
  "nanmax [] = Inl ValueError"
| "nanmax (x # xs) = Inr (foldl fmax x xs)"

text \<open>
  \<^verbatim>\<open>np.sum\<close> over a contiguous array adds pairwise, as NumPy's
  \<^verbatim>\<open>pairwise_sum\<close> does. Fewer than eight values are added from left to right. Up to
  128 values go into eight running sums, the value at position \<open>8 b + k\<close> into sum
  \<open>k\<close>; the eight sums are then added as a balanced tree, and the values left after the
  last full block of eight are added to that one by one. A longer array is cut in two at
  half its length rounded down to a multiple of eight, and the sums of the two parts are
  added. The reduction adds the result to its initial value, zero.
\<close>

definition add8 :: "fval list \<Rightarrow> fval list \<Rightarrow> fval list" where
  "add8 r ys = map (\<lambda>k. fadd (r ! k) (ys ! k)) [0..<8]"

function block_loop :: "fval list \<Rightarrow> fval list \<Rightarrow> fval list \<times> fval list" where
  "block_loop r ys = (if length ys < 8 then (r, ys) else block_loop (add8 r ys) (drop 8 ys))"
  by pat_completeness auto
termination
  by (relation "measure (\<lambda>(r, ys). length ys)") auto

definition tree8 :: "fval list \<Rightarrow> fval" where
  "tree8 r =
     fadd (fadd (fadd (r ! 0) (r ! 1)) (fadd (r ! 2) (r ! 3)))
          (fadd (fadd (r ! 4) (r ! 5)) (fadd (r ! 6) (r ! 7)))"

definition half8 :: "nat \<Rightarrow> nat" where
  "half8 n = n div 2 - (n div 2) mod 8"

function pairwise_sum :: "fval list \<Rightarrow> fval" where
  "pairwise_sum xs =
     (if length xs < 8 then foldl fadd (Fin 0) xs
      else if length xs \<le> 128 then
        (case block_loop (take 8 xs) (drop 8 xs) of
           (r, rest) \<Rightarrow> foldl fadd (tree8 r) rest)
      else fadd (pairwise_sum (take (half8 (length xs)) xs))
                (pairwise_sum (drop (half8 (length xs)) xs)))"
  by pat_completeness auto
termination
  by (relation "measure length") (auto simp: half8_def)

declare block_loop.simps [simp del] pairwise_sum.simps [simp del]

definition np_sum :: "fval list \<Rightarrow> fval" where
  "np_sum xs = fadd (Fin 0) (pairwise_sum xs)"

text \<open>
  \<^verbatim>\<open>np.nanmean\<close> replaces every not-a-number by zero, sums, and divides by the number
  of entries that were not not-a-number; with no such entry the quotient is \<open>0 / 0\<close>,
  not-a-number, and nothing is raised. How the sum is taken depends on the axis, so it
  is a parameter; \<open>nanmean\<close> is the mean of a contiguous array.
\<close>

definition nan_to_zero :: "fval \<Rightarrow> fval" where
  "nan_to_zero v = (if isnan v then Fin 0 else v)"

definition not_nan :: "fval \<Rightarrow> bool" where
  "not_nan v = (\<not> isnan v)"

definition nanmean_by :: "(fval list \<Rightarrow> fval) \<Rightarrow> fval list \<Rightarrow> fval" where
  "nanmean_by reduce xs =
     fdiv (reduce (map nan_to_zero xs)) (round64 (of_nat (length (filter not_nan xs))))"

definition nanmean :: "fval list \<Rightarrow> fval" where
  "nanmean xs = nanmean_by np_sum xs"

text \<open>
  \<^verbatim>\<open>argmin\<close> scans the array once: it keeps the first element, replaces it by a later
  one that is not greater-or-equal (so smaller, or not-a-number), and stops at the first
  not-a-number. It raises \<^verbatim>\<open>ValueError\<close> on an empty array.
\<close>

fun argmin_loop :: "fval \<Rightarrow> nat \<Rightarrow> nat \<Rightarrow> fval list \<Rightarrow> nat" where
  "argmin_loop mp min_ind i [] = min_ind"
| "argmin_loop mp min_ind i (x # xs) =
     (if isnan mp then min_ind
      else if fge x mp then argmin_loop mp min_ind (Suc i) xs
      else argmin_loop x i (Suc i) xs)"

fun argmin :: "fval list \<Rightarrow> py_exc + nat" where
  "argmin [] = Inl ValueError"
| "argmin (x # xs) = Inr (argmin_loop x 0 1 xs)"

definition clip :: "int \<Rightarrow> int \<Rightarrow> int \<Rightarrow> int" where
  "clip x lo hi = min (max x lo) hi"

text \<open>
  \<^verbatim>\<open>np.linspace(start, stop, num)\<close>: the step is \<open>(stop - start) / (num - 1)\<close>, the
  \<open>k\<close>-th value is \<open>k * step + start\<close>, and the last value is set to \<open>stop\<close>.
\<close>

definition linspace :: "fval \<Rightarrow> fval \<Rightarrow> nat \<Rightarrow> fval list" where
  "linspace start stop num =
     (let delta = fsub stop start;
          dv = round64 (of_nat (num - 1));
          step = fdiv delta dv;
          y = map (\<lambda>k. fadd (if step = Fin 0 then fmul (fdiv (round64 (of_nat k)) dv) delta
                               else fmul (round64 (of_nat k)) step) start) [0..<num]
      in if 1 < num then y[num - 1 := stop] else y)"

text \<open>
  \<^verbatim>\<open>np.histogram(arr, bins=n, range=(lo, hi))\<close>: the edges are
  \<open>linspace lo hi (n + 1)\<close>; bin \<open>k\<close> counts the values \<open>x\<close> with
  \<open>edges[k] <= x < edges[k+1]\<close>, the last bin also those equal to its right edge.
  A value outside \<open>[lo, hi]\<close> is in no bin.
\<close>

definition in_bin :: "fval list \<Rightarrow> nat \<Rightarrow> nat \<Rightarrow> fval \<Rightarrow> bool" where
  "in_bin edges n k x =
     (fle (edges ! k) x \<and>
      (if Suc k = n then fle x (edges ! Suc k) else flt x (edges ! Suc k)))"

definition histogram :: "fval list \<Rightarrow> nat \<Rightarrow> fval \<Rightarrow> fval \<Rightarrow> nat list \<times> fval list" where
  "histogram arr n lo hi =
     (let edges = linspace lo hi (Suc n)
      in (map (\<lambda>k. length (filter (in_bin edges n k) arr)) [0..<n], edges))"

section \<open>The dataset and its file\<close>

text \<open>
  \<^verbatim>\<open>H.values\<close> is a two-dimensional array: a shape and a value for every pair of
  indices inside it. Rows are indexed by latitude, columns by longitude.
\<close>

record grid =
  n_lat :: nat
  n_lon :: nat
  cell :: "nat \<Rightarrow> nat \<Rightarrow> fval"

definition row :: "grid \<Rightarrow> nat \<Rightarrow> fval list" where
  "row H i = map (cell H i) [0..<n_lon H]"

definition col :: "grid \<Rightarrow> nat \<Rightarrow> fval list" where
  "col H j = map (\<lambda>i. cell H i j) [0..<n_lat H]"

definition flatten :: "grid \<Rightarrow> fval list" where
  "flatten H = concat (map (row H) [0..<n_lat H])"

text \<open>
  \<^verbatim>\<open>H.values[i, j]\<close>: a negative index counts from the end; an index outside the
  shape raises \<^verbatim>\<open>IndexError\<close>.
\<close>

definition getitem2 :: "grid \<Rightarrow> int \<Rightarrow> int \<Rightarrow> py_exc + fval" where
  "getitem2 H i j =
     (let r = int (n_lat H); c = int (n_lon H);
          i' = (if i < 0 then i + r else i);
          j' = (if j < 0 then j + c else j)
      in if 0 \<le> i' \<and> i' < r \<and> 0 \<le> j' \<and> j' < c
         then Inr (cell H (nat i') (nat j')) else Inl IndexError)"

text \<open>
  What \<^verbatim>\<open>xr.open_dataset\<close> returns, as far as the handlers look at it: the variable
  \<^verbatim>\<open>H_index\<close> and the coordinates \<^verbatim>\<open>lat\<close> and \<^verbatim>\<open>lon\<close>, each present or not.
\<close>

record xr_dataset =
  var_H_index :: "grid option"
  coord_lat :: "fval list option"
  coord_lon :: "fval list option"

text \<open>
  The process environment the module reads: the variable \<^verbatim>\<open>MAZI_DATA_PATH\<close>, the
  file system (\<^verbatim>\<open>os.path.exists\<close>, \<^verbatim>\<open>os.path.abspath\<close>, \<^verbatim>\<open>os.getcwd\<close>),
  the directory of the module file, and the content of each NetCDF file.
\<close>

record world =
  MAZI_DATA_PATH :: "string option"
  path_exists :: "string \<Rightarrow> bool"
  abspath :: "string \<Rightarrow> string"
  getcwd :: string
  file_dirname :: string
  open_dataset :: "string \<Rightarrow> py_exc + xr_dataset"

definition DATA_FILENAME :: string where
  "DATA_FILENAME = ''habitat_index_H.nc''"

definition join2 :: "string \<Rightarrow> string \<Rightarrow> string" where
  "join2 path b =
     (if b \<noteq> [] \<and> hd b = CHR ''/'' then b
      else if path = [] \<or> last path = CHR ''/'' then path @ b
      else path @ ''/'' @ b)"

definition path_join :: "string \<Rightarrow> string list \<Rightarrow> string" where
  "path_join a p = foldl join2 a p"

definition candidates :: "world \<Rightarrow> string list" where
  "candidates w =
     [abspath w DATA_FILENAME,
      abspath w (path_join (getcwd w) [DATA_FILENAME]),
      abspath w (path_join (file_dirname w) [''..'', DATA_FILENAME]),
      abspath w (path_join (file_dirname w) [DATA_FILENAME]),
      abspath w (path_join (file_dirname w) [''..'', ''data'', DATA_FILENAME]),
      abspath w (path_join ''data'' [DATA_FILENAME])]"

definition find_data_file :: "world \<Rightarrow> string option" where
  "find_data_file w =
     (case MAZI_DATA_PATH w of
        None \<Rightarrow> find (path_exists w) (candidates w)
      | Some override \<Rightarrow>
          if override \<noteq> [] \<and> path_exists w override then Some (abspath w override)
          else find (path_exists w) (candidates w))"

definition load_h_dataset :: "world \<Rightarrow> string \<Rightarrow> py_exc + xr_dataset" where
  "load_h_dataset w path =
     (if path_exists w path then
        (case open_dataset w path of
           Inl e \<Rightarrow> Inl e
         | Inr ds \<Rightarrow>
             if var_H_index ds = None then Inl KeyError
             else if coord_lat ds = None \<or> coord_lon ds = None then Inl KeyError
             else Inr ds)
      else Inl FileNotFoundError)"

section \<open>Date validation\<close>

text \<open>
  \<^verbatim>\<open>datetime.strptime(date, "%Y-%m-%d")\<close> matches the regular expression
  \<^verbatim>\<open>(\d\d\d\d)-(1[0-2]|0[1-9]|[1-9])-(3[0-1]|[1-2]\d|0[1-9]|[1-9]| [1-9])\<close> at the
  start of the string, alternatives tried in this order with backtracking, raises
  \<^verbatim>\<open>ValueError\<close> when it does not match or when text remains after the match, and
  then builds the date, which raises \<^verbatim>\<open>ValueError\<close> for the year 0 and for a day the
  month does not have. A string is a sequence of characters below U+0100 here, the
  type of characters having no others; among them \<^verbatim>\<open>\d\<close> matches the ten ASCII
  digits only.
\<close>

definition is_digit :: "char \<Rightarrow> bool" where
  "is_digit c = (c \<in> set ''0123456789'')"

definition digit_val :: "char \<Rightarrow> nat" where
  "digit_val c = of_char c - 48"

fun match_Y :: "string \<Rightarrow> (nat \<times> string) option" where
  "match_Y (a # b # c # d # rest) =
     (if is_digit a \<and> is_digit b \<and> is_digit c \<and> is_digit d
      then Some (1000 * digit_val a + 100 * digit_val b + 10 * digit_val c + digit_val d, rest)
      else None)"
| "match_Y _ = None"

definition two_chars :: "string \<Rightarrow> string \<Rightarrow> string \<Rightarrow> (nat \<times> string) list" where
  "two_chars firsts seconds s =
     (case s of
        a # b # rest \<Rightarrow>
          if a \<in> set firsts \<and> b \<in> set seconds
          then [(10 * (if a = CHR '' '' then 0 else digit_val a) + digit_val b, rest)] else []
      | _ \<Rightarrow> [])"

definition one_char :: "string \<Rightarrow> string \<Rightarrow> (nat \<times> string) list" where
  "one_char firsts s =
     (case s of a # rest \<Rightarrow> if a \<in> set firsts then [(digit_val a, rest)] else [] | [] \<Rightarrow> [])"

definition alts_m :: "string \<Rightarrow> (nat \<times> string) list" where
  "alts_m s =
     two_chars ''1'' ''012'' s @ two_chars ''0'' ''123456789'' s @ one_char ''123456789'' s"

definition alts_d :: "string \<Rightarrow> (nat \<times> string) list" where
  "alts_d s =
     two_chars ''3'' ''01'' s @ two_chars ''12'' ''0123456789'' s
     @ two_chars ''0'' ''123456789'' s @ one_char ''123456789'' s
     @ two_chars '' '' ''123456789'' s"

definition dash_then_day :: "nat \<times> string \<Rightarrow> bool" where
  "dash_then_day mr = (case snd mr of c # r \<Rightarrow> c = CHR ''-'' \<and> alts_d r \<noteq> [] | [] \<Rightarrow> False)"

definition is_leap :: "nat \<Rightarrow> bool" where
  "is_leap y = (y mod 4 = 0 \<and> (if y mod 100 = 0 then y mod 400 = 0 else True))"

definition days_in_month :: "nat \<Rightarrow> nat \<Rightarrow> nat" where
  "days_in_month y m =
     (if m = 2 then (if is_leap y then 29 else 28)
      else if m \<in> {4, 6, 9, 11} then 30 else 31)"

definition strptime :: "string \<Rightarrow> py_exc + nat \<times> nat \<times> nat" where
  "strptime s =
     (case match_Y s of
        None \<Rightarrow> Inl ValueError
      | Some (y, r1) \<Rightarrow>
          (case r1 of
             [] \<Rightarrow> Inl ValueError
           | c # r2 \<Rightarrow>
               if c = CHR ''-'' then
                 (case find dash_then_day (alts_m r2) of
                    None \<Rightarrow> Inl ValueError
                  | Some (m, r3) \<Rightarrow>
                      (case alts_d (tl r3) of
                         [] \<Rightarrow> Inl ValueError
                       | (d, r4) # _ \<Rightarrow>
                           if r4 = [] \<and> 1 \<le> y \<and> d \<le> days_in_month y m
                           then Inr (y, m, d) else Inl ValueError))
               else Inl ValueError))"

section \<open>The handlers\<close>

text \<open>
  A handler returns a value or raises; \<^verbatim>\<open>HTTPException(status_code=n)\<close> is the
  exception \<open>HTTPException n\<close> (its detail text is left out). The letter e with an
  acute accent is the character U+00E9.
\<close>

definition e_acute :: string where
  "e_acute = [CHR 0xE9]"

definition no_file_message :: string where
  "no_file_message =
     ''Aucun fichier habitat_index_H.nc trouv'' @ e_acute @ ''. Ex'' @ e_acute
     @ ''cute le notebook pour le g'' @ e_acute @ ''n'' @ e_acute @ ''rer.''"

definition default_note :: string where
  "default_note = ''H absent, renvoi par d'' @ e_acute @ ''faut''"

subsection \<open>/analyze\<close>

datatype analyze_response =
    JSONResponse nat string string
  | AnalyzePayload string fval fval fval "string option"

text \<open>
  The body of the \<^verbatim>\<open>try\<close> block. The \<^verbatim>\<open>HTTPException\<close> of status 400 for a
  date that does not parse is raised inside it.
\<close>

definition analyze_try :: "world \<Rightarrow> string \<Rightarrow> string option \<Rightarrow> py_exc + analyze_response" where
  "analyze_try w data_path date =
     (case load_h_dataset w data_path of
        Inl e \<Rightarrow> Inl e
      | Inr ds \<Rightarrow>
     (case var_H_index ds of
        None \<Rightarrow> Inl KeyError
      | Some H \<Rightarrow>
     (case nanmin (flatten H) of
        Inl e \<Rightarrow> Inl e
      | Inr hmin \<Rightarrow>
     (case nanmax (flatten H) of
        Inl e \<Rightarrow> Inl e
      | Inr hmax \<Rightarrow>
     (let hmean = nanmean (flatten H) in
      case date of
        None \<Rightarrow> Inr (AnalyzePayload data_path hmin hmax hmean None)
      | Some d \<Rightarrow>
          (case strptime d of
             Inl e \<Rightarrow> Inl (HTTPException 400)
           | Inr _ \<Rightarrow> Inr (AnalyzePayload data_path hmin hmax hmean (Some d))))))))"

text \<open>
  \<^verbatim>\<open>except Exception as e: raise HTTPException(status_code=500, ...)\<close> catches every
  exception of the block, \<^verbatim>\<open>HTTPException\<close> being a subclass of \<^verbatim>\<open>Exception\<close>.
\<close>

definition analyze :: "world \<Rightarrow> string option \<Rightarrow> py_exc + analyze_response" where
  "analyze w date =
     (case find_data_file w of
        None \<Rightarrow> Inr (JSONResponse 200 no_file_message DATA_FILENAME)
      | Some data_path \<Rightarrow>
          (case analyze_try w data_path date of
             Inl e \<Rightarrow> Inl (HTTPException 500)
           | Inr payload \<Rightarrow> Inr payload))"

subsection \<open>/predict\<close>

datatype predict_response =
    PredictDefault fval fval fval string
  | PredictPayload fval fval fval int int

text \<open>
  \<^verbatim>\<open>int(np.clip(np.abs(arr - q).argmin(), 0, arr.size - 1))\<close>
\<close>

definition distances :: "fval list \<Rightarrow> fval \<Rightarrow> fval list" where
  "distances arr q = map (\<lambda>x. fabs (fsub x q)) arr"

definition nearest_index :: "fval list \<Rightarrow> fval \<Rightarrow> py_exc + int" where
  "nearest_index arr q =
     (case argmin (distances arr q) of
        Inl e \<Rightarrow> Inl e
      | Inr k \<Rightarrow> Inr (clip (int k) 0 (int (length arr) - 1)))"

definition predict_try :: "world \<Rightarrow> string \<Rightarrow> fval \<Rightarrow> fval \<Rightarrow> py_exc + predict_response" where
  "predict_try w data_path latQ lonQ =
     (case load_h_dataset w data_path of
        Inl e \<Rightarrow> Inl e
      | Inr ds \<Rightarrow>
     (case var_H_index ds of
        None \<Rightarrow> Inl KeyError
      | Some H \<Rightarrow>
     (case coord_lat ds of
        None \<Rightarrow> Inl KeyError
      | Some lat_arr \<Rightarrow>
     (case coord_lon ds of
        None \<Rightarrow> Inl KeyError
      | Some lon_arr \<Rightarrow>
     (case nearest_index lat_arr latQ of
        Inl e \<Rightarrow> Inl e
      | Inr i \<Rightarrow>
     (case nearest_index lon_arr lonQ of
        Inl e \<Rightarrow> Inl e
      | Inr j \<Rightarrow>
     (case getitem2 H i j of
        Inl e \<Rightarrow> Inl e
      | Inr v \<Rightarrow>
          Inr (PredictPayload latQ lonQ (if isfinite v then v else NaN) i j))))))))"

definition predict :: "world \<Rightarrow> fval \<Rightarrow> fval \<Rightarrow> py_exc + predict_response" where
  "predict w latQ lonQ =
     (case find_data_file w of
        None \<Rightarrow> Inr (PredictDefault latQ lonQ (Fin (1 / 2)) default_note)
      | Some data_path \<Rightarrow>
          (case predict_try w data_path latQ lonQ of
             Inl e \<Rightarrow> Inl (HTTPException 500)
           | Inr payload \<Rightarrow> Inr payload))"

subsection \<open>/series\<close>

datatype series_response =
    LatMean "fval list" "fval option list"
  | LonMean "fval list" "fval option list"
  | Global "fval list" "nat list"

text \<open>\<^verbatim>\<open>None if not np.isfinite(v) else float(v)\<close>\<close>

definition null_unless_finite :: "fval \<Rightarrow> fval option" where
  "null_unless_finite v = (if isfinite v then Some v else None)"

definition nanmean_axis1 :: "grid \<Rightarrow> fval list" where
  "nanmean_axis1 H = map (\<lambda>i. nanmean (row H i)) [0..<n_lat H]"

text \<open>
  Along axis 0 the rows of the array are added one after the other into the result, so
  a column is summed from its first row to its last; a grid of a single column is
  contiguous along that axis and summed as a one-dimensional array.
\<close>

definition add_rows :: "fval list \<Rightarrow> fval" where
  "add_rows xs = foldl fadd (Fin 0) xs"

definition column_mean :: "grid \<Rightarrow> nat \<Rightarrow> fval" where
  "column_mean H j = nanmean_by (if n_lon H = 1 then np_sum else add_rows) (col H j)"

definition nanmean_axis0 :: "grid \<Rightarrow> fval list" where
  "nanmean_axis0 H = map (column_mean H) [0..<n_lon H]"

definition global_histogram :: "grid \<Rightarrow> series_response" where
  "global_histogram H =
     (let arr = filter isfinite (flatten H)
      in if arr = [] then Global [] []
         else (case histogram arr 10 (Fin 0) (Fin 1) of
                 (counts, edges) \<Rightarrow> Global (butlast edges) counts))"

definition series_try :: "world \<Rightarrow> string \<Rightarrow> string \<Rightarrow> py_exc + series_response" where
  "series_try w data_path agg =
     (case load_h_dataset w data_path of
        Inl e \<Rightarrow> Inl e
      | Inr ds \<Rightarrow>
     (case var_H_index ds of
        None \<Rightarrow> Inl KeyError
      | Some H \<Rightarrow>
          if agg = ''lat_mean'' then
            (case coord_lat ds of
               None \<Rightarrow> Inl KeyError
             | Some lat \<Rightarrow> Inr (LatMean lat (map null_unless_finite (nanmean_axis1 H))))
          else if agg = ''lon_mean'' then
            (case coord_lon ds of
               None \<Rightarrow> Inl KeyError
             | Some lon \<Rightarrow> Inr (LonMean lon (map null_unless_finite (nanmean_axis0 H))))
          else Inr (global_histogram H)))"

definition series :: "world \<Rightarrow> string \<Rightarrow> py_exc + series_response" where
  "series w agg =
     (case find_data_file w of
        None \<Rightarrow> Inl (HTTPException 404)
      | Some data_path \<Rightarrow>
          (case series_try w data_path agg of
             Inl e \<Rightarrow> Inl (HTTPException 500)
           | Inr payload \<Rightarrow> Inr payload))"

section \<open>The response sent to the client\<close>

text \<open>
  The framework turns what a handler returns into a JSON body with
  \<^verbatim>\<open>json.dumps(..., allow_nan=False)\<close>, which raises \<^verbatim>\<open>ValueError\<close> on a float
  that is not finite. The client receives status 200 with the body, the status of an
  \<^verbatim>\<open>HTTPException\<close>, or status 500 for any other exception, the one of the encoder
  included.
\<close>

datatype json =
    JNull
  | JInt int
  | JFloat fval
  | JStr string
  | JList "json list"
  | JDict "(string \<times> json) list"

fun json_ok :: "json \<Rightarrow> bool" where
  "json_ok (JFloat v) = isfinite v"
| "json_ok (JList xs) = list_all json_ok xs"
| "json_ok (JDict kvs) = list_all json_ok (map snd kvs)"
| "json_ok _ = True"

datatype http_response = HTTP_OK json | HTTP_Error nat

fun status_of :: "py_exc \<Rightarrow> nat" where
  "status_of (HTTPException n) = n"
| "status_of _ = 500"

definition respond :: "py_exc + json \<Rightarrow> http_response" where
  "respond r =
     (case r of
        Inl e \<Rightarrow> HTTP_Error (status_of e)
      | Inr body \<Rightarrow> if json_ok body then HTTP_OK body else HTTP_Error 500)"

fun predict_json :: "predict_response \<Rightarrow> json" where
  "predict_json (PredictDefault la lo h note) =
     JDict [(''lat'', JFloat la), (''lon'', JFloat lo), (''H'', JFloat h), (''note'', JStr note)]"
| "predict_json (PredictPayload la lo v i j) =
     JDict [(''lat'', JFloat la), (''lon'', JFloat lo), (''H'', JFloat v),
            (''i'', JInt i), (''j'', JInt j)]"

fun nullable :: "fval option \<Rightarrow> json" where
  "nullable None = JNull"
| "nullable (Some v) = JFloat v"

fun series_json :: "series_response \<Rightarrow> json" where
  "series_json (LatMean lat vals) =
     JDict [(''type'', JStr ''lat_mean''), (''lat'', JList (map JFloat lat)),
            (''H'', JList (map nullable vals))]"
| "series_json (LonMean lon vals) =
     JDict [(''type'', JStr ''lon_mean''), (''lon'', JList (map JFloat lon)),
            (''H'', JList (map nullable vals))]"
| "series_json (Global bins counts) =
     JDict [(''type'', JStr ''global''), (''bins'', JList (map JFloat bins)),
            (''counts'', JList (map (\<lambda>n. JInt (int n)) counts))]"

definition get_predict :: "world \<Rightarrow> fval \<Rightarrow> fval \<Rightarrow> http_response" where
  "get_predict w latQ lonQ = respond (map_sum id predict_json (predict w latQ lonQ))"

definition get_series :: "world \<Rightarrow> string \<Rightarrow> http_response" where
  "get_series w agg = respond (map_sum id series_json (series w agg))"

section \<open>Example environments\<close>

text \<open>
  An installation with no dataset file at all, and one whose only file is
  \<^verbatim>\<open>/srv/habitat_index_H.nc\<close>, found through the working directory, holding a given
  dataset.
\<close>

definition empty_world :: world where
  "empty_world =
     \<lparr>MAZI_DATA_PATH = None, path_exists = (\<lambda>p. False), abspath = (\<lambda>p. p),
      getcwd = ''/srv'', file_dirname = ''/srv/api'',
      open_dataset = (\<lambda>p. Inl FileNotFoundError)\<rparr>"

definition world_with :: "xr_dataset \<Rightarrow> world" where
  "world_with ds =
     \<lparr>MAZI_DATA_PATH = None, path_exists = (\<lambda>p. p = ''/srv/habitat_index_H.nc''),
      abspath = (\<lambda>p. p), getcwd = ''/srv'', file_dirname = ''/srv/api'',
      open_dataset = (\<lambda>p. if p = ''/srv/habitat_index_H.nc'' then Inr ds else Inl FileNotFoundError)\<rparr>"

definition grid_of :: "nat \<Rightarrow> nat \<Rightarrow> fval list list \<Rightarrow> grid" where
  "grid_of r c rows = \<lparr>n_lat = r, n_lon = c, cell = (\<lambda>i j. rows ! i ! j)\<rparr>"

definition dataset_of :: "grid \<Rightarrow> fval list \<Rightarrow> fval list \<Rightarrow> xr_dataset" where
  "dataset_of H lat lon = \<lparr>var_H_index = Some H, coord_lat = Some lat, coord_lon = Some lon\<rparr>"

text \<open>
  A two-by-two grid with one missing cell, on the axes of latitude 10, 20 and longitude
  100, 110. All its values are doubles.
\<close>

definition example_grid :: grid where
  "example_grid = grid_of 2 2 [[Fin (1 / 4), NaN], [Fin (3 / 4), Fin (1 / 2)]]"

definition example_dataset :: xr_dataset where
  "example_dataset = dataset_of example_grid [Fin 10, Fin 20] [Fin 100, Fin 110]"

text \<open>
  A grid of three rows and one column on the latitudes 0, 8 and 8.5, for queries far
  outside the axis.
\<close>

definition far_dataset :: xr_dataset where
  "far_dataset =
     dataset_of (grid_of 3 1 [[Fin 1], [Fin 2], [Fin 3]]) [Fin 0, Fin 8, Fin (17 / 2)] [Fin 0]"


definition inf_dataset :: xr_dataset where
  "inf_dataset =
     dataset_of (grid_of 2 2 [[PInf, Fin 1], [Fin 2, Fin 4]])
       [Fin 10, Fin 20] [Fin 100, Fin 110]"

definition tenth :: real where
  "tenth = 3602879701896397 / 36028797018963968"


text \<open>
  The double nearest to 0.2 is \<open>fifth\<close>; a grid of one row holds it thirteen times, which
  is long enough for the sum to be taken pairwise.
\<close>

definition fifth :: real where
  "fifth = 3602879701896397 / 18014398509481984"

definition fifth_row :: "fval list" where
  "fifth_row =
     [Fin fifth, Fin fifth, Fin fifth, Fin fifth, Fin fifth, Fin fifth, Fin fifth, Fin fifth,
      Fin fifth, Fin fifth, Fin fifth, Fin fifth, Fin fifth]"

definition fifth_dataset :: xr_dataset where
  "fifth_dataset = dataset_of (grid_of 1 13 [fifth_row]) [Fin 0] (map (\<lambda>k. Fin (real k)) [0..<13])"


definition nan_dataset :: xr_dataset where
  "nan_dataset = dataset_of (grid_of 1 1 [[NaN]]) [Fin 0] [Fin 0]"

definition hist_dataset :: xr_dataset where
  "hist_dataset =
     dataset_of (grid_of 2 3 [[Fin (1 / 4), NaN, Fin 2], [Fin 1, PInf, Fin (- 1)]])
       [Fin 10, Fin 20] [Fin 100, Fin 110, Fin 120]"

section \<open>Properties of the nearest index\<close>

text \<open>
  Index \<open>k\<close> is the first minimum of the distances \<open>d\<close>: when some distance is
  not-a-number, \<open>k\<close> is the first such position; otherwise no distance is smaller than
  the one at \<open>k\<close> and every earlier one is strictly greater.
\<close>

definition first_minimum :: "fval list \<Rightarrow> nat \<Rightarrow> bool" where
  "first_minimum d k =
     (k < length d \<and>
      (if list_ex isnan d
       then isnan (d ! k) \<and> (\<forall>t<k. \<not> isnan (d ! t))
       else (\<forall>t<length d. fle (d ! k) (d ! t)) \<and> (\<forall>t<k. flt (d ! k) (d ! t))))"

text \<open>
  Entry \<open>t\<close> of an axis holds its largest value, or its smallest.
\<close>

definition largest_at :: "fval list \<Rightarrow> nat \<Rightarrow> bool" where
  "largest_at arr t = (t < length arr \<and> list_all (\<lambda>x. fle x (arr ! t)) arr)"

definition smallest_at :: "fval list \<Rightarrow> nat \<Rightarrow> bool" where
  "smallest_at arr t = (t < length arr \<and> list_all (\<lambda>x. fle (arr ! t) x) arr)"

text \<open>
  The query is finite and at or beyond the largest value of the axis, or at or below its
  smallest.
\<close>

definition at_or_above :: "fval list \<Rightarrow> fval \<Rightarrow> bool" where
  "at_or_above arr q = (isfinite q \<and> list_all (\<lambda>x. fle x q) arr)"

definition at_or_below :: "fval list \<Rightarrow> fval \<Rightarrow> bool" where
  "at_or_below arr q = (isfinite q \<and> list_all (\<lambda>x. fle q x) arr)"

text \<open>
  Index \<open>k\<close> is the first one whose computed distance to the query equals that of entry
  \<open>t\<close>.
\<close>

definition first_tied_with :: "fval list \<Rightarrow> fval \<Rightarrow> nat \<Rightarrow> nat \<Rightarrow> bool" where
  "first_tied_with arr q k t =
     (k \<le> t \<and> distances arr q ! k = distances arr q ! t \<and>
      list_all (\<lambda>d. d \<noteq> distances arr q ! t) (take k (distances arr q)))"

section \<open>Properties of the statistics\<close>



section \<open>Properties of the histogram\<close>

text \<open>
  The eleven edges \<^verbatim>\<open>np.linspace(0.0, 1.0, 11)\<close> computes, as doubles: 0, 0.1, 0.2,
  0.30000000000000004, 0.4, 0.5, 0.6000000000000001, 0.7000000000000001, 0.8, 0.9, 1.
\<close>

definition hist_edges :: "fval list" where
  "hist_edges =
     [Fin 0, Fin tenth, Fin (3602879701896397 / 18014398509481984),
      Fin (1351079888211149 / 4503599627370496), Fin (3602879701896397 / 9007199254740992),
      Fin (1 / 2), Fin (1351079888211149 / 2251799813685248),
      Fin (6305039478318695 / 9007199254740992), Fin (3602879701896397 / 4503599627370496),
      Fin (8106479329266893 / 9007199254740992), Fin 1]"

text \<open>A cell counts for the histogram: it is finite and lies in the closed range from 0 to 1.\<close>

definition in_unit :: "fval \<Rightarrow> bool" where
  "in_unit c = (isfinite c \<and> fle (Fin 0) c \<and> fle c (Fin 1))"

section \<open>Rounding: evaluation lemmas\<close>

text \<open>
  Once the binary exponent of a number is known, its rounding is plain arithmetic.
\<close>

lemma bitlen_eqI:
  fixes n :: int
  assumes "2 ^ j \<le> n" and "n < 2 ^ Suc j"
  shows "bitlen n = int j + 1"
proof -
  have n0: "0 < n" using assms(1) by (smt (verit) zero_less_power)
  let ?b = "bitlen n"
  have bb: "2 ^ nat (?b - 1) \<le> n" "n < 2 ^ nat ?b"
    using bitlen_bounds [OF n0] by simp_all
  have "(2::int) ^ j < 2 ^ nat ?b" using assms(1) bb(2) by linarith
  then have 1: "j < nat ?b" by (simp add: power_strict_increasing_iff)
  have "(2::int) ^ nat (?b - 1) < 2 ^ Suc j" using assms(2) bb(1) by linarith
  then have 2: "nat (?b - 1) < Suc j"
    by (rule power_less_imp_less_exp [rotated]) simp
  from 1 2 show ?thesis by linarith
qed

lemma ilog2_nonneg:
  assumes "2 ^ j \<le> x" and "x < 2 ^ Suc j"
  shows "ilog2 x = int j"
proof -
  have x1: "1 \<le> x" using assms(1) one_le_power [of "2::real" j] by linarith
  have a: "(2::int) ^ j \<le> \<lfloor>x\<rfloor>"
    using assms(1) by (metis le_floor_iff of_int_numeral of_int_power)
  have b: "\<lfloor>x\<rfloor> < 2 ^ Suc j"
    using assms(2) by (metis floor_less_iff of_int_numeral of_int_power)
  show ?thesis using bitlen_eqI [OF a b] x1 by (simp add: ilog2_def)
qed

lemma ilog2_neg:
  assumes "1 / 2 ^ Suc j \<le> x" and "x < 1 / 2 ^ j"
  shows "ilog2 x = - int (Suc j)"
proof -
  have x0: "0 < x" using assms(1) by (smt (verit) divide_pos_pos zero_less_power)
  have x1: "x < 1" using assms(2) one_le_power [of "2::real" j]
    by (smt (verit) divide_le_eq_1_pos zero_less_power)
  have u: "1 / x \<le> 2 ^ Suc j"
    using assms(1) x0 by (simp add: field_simps)
  have l: "2 ^ j < 1 / x"
    using assms(2) x0 by (simp add: field_simps)
  have a: "(2::int) ^ j \<le> \<lceil>1 / x\<rceil> - 1"
  proof -
    have "of_int ((2::int) ^ j) < 1 / x" using l by simp
    then have "(2::int) ^ j < \<lceil>1 / x\<rceil>" by (simp add: less_ceiling_iff)
    then show ?thesis by linarith
  qed
  have b: "\<lceil>1 / x\<rceil> - 1 < 2 ^ Suc j"
  proof -
    have "1 / x \<le> of_int ((2::int) ^ Suc j)" using u by simp
    then have "\<lceil>1 / x\<rceil> \<le> (2::int) ^ Suc j" by (simp only: ceiling_le_iff)
    then show ?thesis by linarith
  qed
  show ?thesis using bitlen_eqI [OF a b] x1 by (simp add: ilog2_def)
qed

lemma round64_ge1:
  assumes "2 ^ j \<le> \<bar>x\<bar>" and "\<bar>x\<bar> < 2 ^ Suc j"
  shows "round64 x =
    (let r = of_int (round_half_even (\<bar>x\<bar> / pow2 (int j - 52))) * pow2 (int j - 52)
     in if 2 ^ 1024 \<le> r then (if x < 0 then NInf else PInf)
        else Fin (if x < 0 then - r else r))"
proof -
  have nz: "(x = 0) = False" using assms(1) by (smt (verit) abs_zero zero_less_power)
  have il: "ilog2 \<bar>x\<bar> = int j" by (rule ilog2_nonneg [OF assms])
  have m: "max (int j) (- 1022) = int j" by simp
  show ?thesis
    unfolding round64_def Let_def il m nz if_False ..
qed

lemma round64_lt1:
  assumes "1 / 2 ^ Suc j \<le> \<bar>x\<bar>" and "\<bar>x\<bar> < 1 / 2 ^ j" and "Suc j \<le> 1022"
  shows "round64 x =
    (let r = of_int (round_half_even (\<bar>x\<bar> / pow2 (- int (Suc j) - 52)))
             * pow2 (- int (Suc j) - 52)
     in if 2 ^ 1024 \<le> r then (if x < 0 then NInf else PInf)
        else Fin (if x < 0 then - r else r))"
proof -
  have nz: "(x = 0) = False"
    using assms(1) by (smt (verit) abs_zero divide_pos_pos zero_less_power zero_less_one)
  have il: "ilog2 \<bar>x\<bar> = - int (Suc j)" by (rule ilog2_neg [OF assms(1,2)])
  have m: "max (- int (Suc j)) (- 1022) = - int (Suc j)" using assms(3) by simp
  show ?thesis
    unfolding round64_def Let_def il m nz if_False ..
qed

lemmas r64 = pow2_def round_half_even_def Let_def

section \<open>Rounding keeps the order\<close>

text \<open>
  Rounding to the nearest double is monotone: of two real numbers, the smaller one is
  not rounded to the larger double. It never gives not-a-number.
\<close>

lemma pow2_powr: "pow2 e = 2 powr (of_int e)"
  by (simp add: pow2_def powr_real_of_int inverse_eq_divide)

lemma pow2_pos: "0 < pow2 e"
  by (simp add: pow2_powr)

lemma pow2_add: "pow2 (a + b) = pow2 a * pow2 b"
  by (simp add: pow2_powr powr_add)

lemma pow2_mono: "a \<le> b \<Longrightarrow> pow2 a \<le> pow2 b"
  by (simp add: pow2_powr)

lemma pow2_less_iff: "pow2 a < pow2 b \<longleftrightarrow> a < b"
  by (simp add: pow2_powr)

lemma pow2_nat: "pow2 (int n) = 2 ^ n"
  by (simp add: pow2_def)

lemma ilog2_spec:
  assumes "0 < a"
  shows "pow2 (ilog2 a) \<le> a \<and> a < pow2 (ilog2 a + 1)"
proof (cases "1 \<le> a")
  case True
  let ?n = "\<lfloor>a\<rfloor>"
  have n0: "0 < ?n" using True by simp
  have bb: "2 ^ nat (bitlen ?n - 1) \<le> ?n" "?n < 2 ^ nat (bitlen ?n)"
    using bitlen_bounds [OF n0] by simp_all
  have b1: "1 \<le> bitlen ?n"
  proof (rule ccontr)
    assume "\<not> 1 \<le> bitlen ?n"
    then have "nat (bitlen ?n) = 0" by simp
    with bb(2) have "?n < 1" by simp
    with n0 show False by linarith
  qed
  have il: "ilog2 a = bitlen ?n - 1" using True by (simp add: ilog2_def)
  have "pow2 (bitlen ?n - 1) = of_int (2 ^ nat (bitlen ?n - 1))"
    using b1 by (simp add: pow2_def)
  also have "\<dots> \<le> of_int ?n" using bb(1) by (simp only: of_int_le_iff)
  also have "\<dots> \<le> a" by simp
  finally have lo: "pow2 (bitlen ?n - 1) \<le> a" .
  have "?n + 1 \<le> 2 ^ nat (bitlen ?n)" using bb(2) by simp
  then have "of_int (?n + 1) \<le> (of_int (2 ^ nat (bitlen ?n)) :: real)"
    by (simp only: of_int_le_iff)
  moreover have "a < of_int (?n + 1)" by simp
  ultimately have "a < of_int (2 ^ nat (bitlen ?n))" by linarith
  also have "\<dots> = pow2 (bitlen ?n - 1 + 1)" using b1 by (simp add: pow2_def)
  finally have hi: "a < pow2 (bitlen ?n - 1 + 1)" .
  show ?thesis unfolding il using lo hi by simp
next
  case False
  let ?m = "\<lceil>1 / a\<rceil> - 1"
  have a1: "a < 1" using False by simp
  have inv: "1 < 1 / a" using assms a1 by simp
  have m0: "0 < ?m" using inv by (smt (verit) ceiling_less_iff of_int_1 less_ceiling_iff)
  have bb: "2 ^ nat (bitlen ?m - 1) \<le> ?m" "?m < 2 ^ nat (bitlen ?m)"
    using bitlen_bounds [OF m0] by simp_all
  have b1: "1 \<le> bitlen ?m"
  proof (rule ccontr)
    assume "\<not> 1 \<le> bitlen ?m"
    then have "nat (bitlen ?m) = 0" by simp
    with bb(2) have "?m < 1" by simp
    with m0 show False by linarith
  qed
  have il: "ilog2 a = - bitlen ?m" using False by (simp add: ilog2_def)
  have "\<lceil>1 / a\<rceil> \<le> 2 ^ nat (bitlen ?m)" using bb(2) by simp
  then have "1 / a \<le> of_int (2 ^ nat (bitlen ?m))" by (simp only: ceiling_le_iff)
  then have "1 / a \<le> 2 ^ nat (bitlen ?m)" by simp
  then have "1 / 2 ^ nat (bitlen ?m) \<le> a" using assms by (simp add: field_simps)
  moreover have "pow2 (- bitlen ?m) = 1 / 2 ^ nat (bitlen ?m)"
    using b1 by (simp add: pow2_def)
  ultimately have lo: "pow2 (- bitlen ?m) \<le> a" by simp
  have "of_int ?m < 1 / a" using ceiling_correct [of "1 / a"] by simp
  moreover have "(of_int (2 ^ nat (bitlen ?m - 1)) :: real) \<le> of_int ?m"
    using bb(1) by (simp only: of_int_le_iff)
  ultimately have "2 ^ nat (bitlen ?m - 1) < 1 / a" by simp
  then have "a < 1 / 2 ^ nat (bitlen ?m - 1)" using assms by (simp add: field_simps)
  moreover have "pow2 (- bitlen ?m + 1) = 1 / 2 ^ nat (bitlen ?m - 1)"
  proof (cases "bitlen ?m = 1")
    case True
    then show ?thesis by (simp add: pow2_def)
  next
    case False
    then have "- bitlen ?m + 1 < 0" using b1 by simp
    moreover have "nat (- (- bitlen ?m + 1)) = nat (bitlen ?m - 1)" by simp
    ultimately show ?thesis by (simp add: pow2_def)
  qed
  ultimately have hi: "a < pow2 (- bitlen ?m + 1)" by simp
  show ?thesis unfolding il using lo hi by simp
qed

lemma ilog2_mono:
  assumes "0 < a" and "a \<le> b"
  shows "ilog2 a \<le> ilog2 b"
proof -
  have "pow2 (ilog2 a) \<le> a" using ilog2_spec [OF assms(1)] by simp
  moreover have "b < pow2 (ilog2 b + 1)" using ilog2_spec [of b] assms by simp
  ultimately have "pow2 (ilog2 a) < pow2 (ilog2 b + 1)" using assms(2) by linarith
  then show ?thesis by (simp add: pow2_less_iff)
qed

lemma rhe_bounds: "\<lfloor>m\<rfloor> \<le> round_half_even m \<and> round_half_even m \<le> \<lfloor>m\<rfloor> + 1"
  by (simp add: round_half_even_def Let_def)

lemma rhe_ge:
  assumes "of_int N \<le> m"
  shows "N \<le> round_half_even m"
proof -
  have "N \<le> \<lfloor>m\<rfloor>" using assms by (simp add: le_floor_iff)
  then show ?thesis using rhe_bounds [of m] by linarith
qed

lemma rhe_le:
  assumes "m < of_int N"
  shows "round_half_even m \<le> N"
proof -
  have "\<lfloor>m\<rfloor> < N" using assms by (simp add: floor_less_iff)
  then show ?thesis using rhe_bounds [of m] by linarith
qed

lemma rhe_mono:
  assumes "m1 \<le> m2"
  shows "round_half_even m1 \<le> round_half_even m2"
proof (cases "\<lfloor>m1\<rfloor> = \<lfloor>m2\<rfloor>")
  case True
  then show ?thesis using assms by (simp add: round_half_even_def Let_def)
next
  case False
  then have "\<lfloor>m1\<rfloor> < \<lfloor>m2\<rfloor>" using floor_mono [OF assms] by simp
  then show ?thesis using rhe_bounds [of m1] rhe_bounds [of m2] by linarith
qed

lemma round_pos_mono:
  assumes a: "0 < a" and ab: "a \<le> b"
  shows "of_int (round_half_even (a / pow2 (max (ilog2 a) (- 1022) - 52)))
           * pow2 (max (ilog2 a) (- 1022) - 52)
         \<le> of_int (round_half_even (b / pow2 (max (ilog2 b) (- 1022) - 52)))
           * pow2 (max (ilog2 b) (- 1022) - 52)"
proof -
  define ea where "ea = max (ilog2 a) (- 1022) - 52"
  define eb where "eb = max (ilog2 b) (- 1022) - 52"
  have b: "0 < b" using a ab by simp
  have le: "ea \<le> eb" using ilog2_mono [OF a ab] by (simp add: ea_def eb_def)
  have goal: "of_int (round_half_even (a / pow2 ea)) * pow2 ea
              \<le> of_int (round_half_even (b / pow2 eb)) * pow2 eb"
  proof (cases "ea = eb")
    case True
    have "a / pow2 eb \<le> b / pow2 eb"
      using ab pow2_pos [of eb] by (simp add: divide_right_mono)
    then have "round_half_even (a / pow2 eb) \<le> round_half_even (b / pow2 eb)"
      by (rule rhe_mono)
    then have "(of_int (round_half_even (a / pow2 eb)) :: real)
               \<le> of_int (round_half_even (b / pow2 eb))" by simp
    then show ?thesis
      unfolding True using pow2_pos [of eb] by (simp add: mult_right_mono)
  next
    case False
    then have lt: "ea + 1 \<le> eb" using le by simp
    have ib: "eb + 52 = ilog2 b" using lt by (simp add: ea_def eb_def max_def split: if_splits)
    have ia: "ilog2 a + 1 \<le> ea + 53" by (simp add: ea_def)
    have "a < pow2 (ilog2 a + 1)" using ilog2_spec [OF a] by simp
    also have "\<dots> \<le> pow2 (ea + 53)" by (rule pow2_mono [OF ia])
    also have "\<dots> = pow2 ea * 2 ^ 53" using pow2_add [of ea 53] pow2_nat [of 53] by simp
    finally have "a / pow2 ea < of_int (2 ^ 53)"
      using pow2_pos [of ea] by (simp add: field_simps)
    then have "round_half_even (a / pow2 ea) \<le> 2 ^ 53" by (rule rhe_le)
    then have "(of_int (round_half_even (a / pow2 ea)) :: real) \<le> of_int (2 ^ 53)"
      by (simp only: of_int_le_iff)
    then have "of_int (round_half_even (a / pow2 ea)) * pow2 ea \<le> of_int (2 ^ 53) * pow2 ea"
      using pow2_pos [of ea] by (simp add: mult_right_mono)
    also have "\<dots> = pow2 (ea + 53)" using pow2_add [of ea 53] pow2_nat [of 53] by simp
    also have "\<dots> \<le> pow2 (eb + 52)" by (rule pow2_mono) (use lt in simp)
    finally have 1: "of_int (round_half_even (a / pow2 ea)) * pow2 ea \<le> pow2 (eb + 52)" .
    have "pow2 (eb + 52) \<le> b" unfolding ib using ilog2_spec [OF b] by simp
    moreover have e52: "pow2 (eb + 52) = pow2 eb * 2 ^ 52"
      using pow2_add [of eb 52] pow2_nat [of 52] by simp
    ultimately have "of_int (2 ^ 52) \<le> b / pow2 eb"
      using pow2_pos [of eb] by (simp add: field_simps)
    then have "2 ^ 52 \<le> round_half_even (b / pow2 eb)" by (rule rhe_ge)
    then have "(of_int (2 ^ 52) :: real) \<le> of_int (round_half_even (b / pow2 eb))"
      by (simp only: of_int_le_iff)
    then have "of_int (2 ^ 52) * pow2 eb \<le> of_int (round_half_even (b / pow2 eb)) * pow2 eb"
      using pow2_pos [of eb] by (simp add: mult_right_mono)
    then have 2: "pow2 (eb + 52) \<le> of_int (round_half_even (b / pow2 eb)) * pow2 eb"
      unfolding e52 by (simp add: mult.commute)
    from 1 2 show ?thesis by linarith
  qed
  show ?thesis using goal unfolding ea_def eb_def .
qed

lemma round_pos_nonneg:
  assumes "0 < a"
  shows "0 \<le> of_int (round_half_even (a / pow2 e)) * pow2 e"
proof -
  have "of_int 0 \<le> a / pow2 e" using assms pow2_pos [of e] by simp
  then have "0 \<le> round_half_even (a / pow2 e)" by (rule rhe_ge)
  then show ?thesis using pow2_pos [of e] by simp
qed

lemma round64_mono:
  assumes "x \<le> y"
  shows "fle (round64 x) (round64 y)"
proof -
  define R where "R a = of_int (round_half_even (a / pow2 (max (ilog2 a) (- 1022) - 52)))
           * pow2 (max (ilog2 a) (- 1022) - 52)" for a
  have r: "round64 z = (if z = 0 then Fin 0
            else if 2 ^ 1024 \<le> R \<bar>z\<bar> then (if z < 0 then NInf else PInf)
            else Fin (if z < 0 then - R \<bar>z\<bar> else R \<bar>z\<bar>))" for z
    by (simp add: round64_def R_def Let_def)
  have Rmono: "R a \<le> R b" if "0 < a" "a \<le> b" for a b
    unfolding R_def by (rule round_pos_mono [OF that])
  have Rnn: "0 \<le> R a" if "0 < a" for a
    unfolding R_def by (rule round_pos_nonneg [OF that])
  consider "0 < x" | "x = 0" | "x < 0" "y < 0" | "x < 0" "0 \<le> y" by linarith
  then show ?thesis
  proof cases
    case 1
    then have y: "0 < y" using assms by simp
    show ?thesis using Rmono [OF 1 assms] 1 y by (simp add: r)
  next
    case 2
    show ?thesis
    proof (cases "y = 0")
      case True
      then show ?thesis using 2 by (simp add: r)
    next
      case False
      then have y: "0 < y" using assms 2 by simp
      show ?thesis using Rnn [OF y] y 2 by (simp add: r)
    qed
  next
    case 3
    have "R (- y) \<le> R (- x)" by (rule Rmono) (use 3 assms in simp_all)
    then show ?thesis using 3 by (simp add: r)
  next
    case 4
    have nx: "0 \<le> R (- x)" by (rule Rnn) (use 4 in simp)
    show ?thesis
    proof (cases "y = 0")
      case True
      then show ?thesis using 4 nx by (simp add: r)
    next
      case False
      then have y: "0 < y" using 4 by simp
      show ?thesis using Rnn [OF y] nx y 4 by (simp add: r)
    qed
  qed
qed

lemma round64_0: "round64 0 = Fin 0"
  by (simp add: round64_def)

lemma round64_not_nan: "round64 z \<noteq> NaN"
  by (simp add: round64_def Let_def)

section \<open>The order of floating-point values and the index of the minimum\<close>

lemma fle_trans: "fle a b \<Longrightarrow> fle b c \<Longrightarrow> fle a c"
  by (cases a; cases b; cases c) auto

lemma fle_total: "\<not> isnan a \<Longrightarrow> \<not> isnan b \<Longrightarrow> fle a b \<or> fle b a"
  by (cases a; cases b) auto

lemma fle_refl: "\<not> isnan a \<Longrightarrow> fle a a"
  by (cases a) auto

lemma fle_antisym: "fle a b \<Longrightarrow> fle b a \<Longrightarrow> a = b"
  by (cases a; cases b) auto

lemma fabs_antimono: "fle u v \<Longrightarrow> fle v (Fin 0) \<Longrightarrow> fle (fabs v) (fabs u)"
  by (cases u; cases v) auto

lemma fabs_mono: "fle (Fin 0) u \<Longrightarrow> fle u v \<Longrightarrow> fle (fabs u) (fabs v)"
  by (cases u; cases v) auto

lemma argmin_loop_bound: "m < i \<Longrightarrow> argmin_loop mp m i xs < i + length xs"
proof (induction xs arbitrary: mp m i)
  case Nil
  then show ?case by simp
next
  case (Cons x xs)
  have a: "argmin_loop mp m (Suc i) xs < Suc i + length xs"
    using Cons.IH [of m "Suc i" mp] Cons.prems by simp
  have b: "argmin_loop x i (Suc i) xs < Suc i + length xs"
    using Cons.IH [of i "Suc i" x] by simp
  show ?case using a b Cons.prems by simp
qed

lemma argmin_loop_first_min:
  assumes "n = length ds - i" and "i \<le> length ds" and "m < i" and "ds ! m = mp"
    and "\<forall>t<length ds. \<not> isnan (ds ! t)"
    and "\<forall>t<i. fle mp (ds ! t)" and "\<forall>t<m. flt mp (ds ! t)"
  shows "argmin_loop mp m i (drop i ds) < length ds \<and>
         (\<forall>t<length ds. fle (ds ! argmin_loop mp m i (drop i ds)) (ds ! t)) \<and>
         (\<forall>t<argmin_loop mp m i (drop i ds). flt (ds ! argmin_loop mp m i (drop i ds)) (ds ! t))"
  using assms
proof (induction n arbitrary: i m mp)
  case 0
  then have "drop i ds = []" and "i = length ds" by simp_all
  with 0 show ?case by simp
next
  case (Suc n)
  then have il: "i < length ds" by simp
  then have d: "drop i ds = ds ! i # drop (Suc i) ds"
    by (simp add: Cons_nth_drop_Suc)
  have nn: "\<not> isnan mp" using Suc.prems il by auto
  have nx: "\<not> isnan (ds ! i)" using Suc.prems il by auto
  show ?case
  proof (cases "fge (ds ! i) mp")
    case True
    have r: "argmin_loop mp m i (drop i ds) = argmin_loop mp m (Suc i) (drop (Suc i) ds)"
      using True nn d by simp
    have p1: "\<forall>t<Suc i. fle mp (ds ! t)"
      using Suc.prems(6) True by (auto simp: fge_def less_Suc_eq)
    show ?thesis
      unfolding r
      by (rule Suc.IH) (use Suc.prems il p1 in auto)
  next
    case False
    have r: "argmin_loop mp m i (drop i ds) = argmin_loop (ds ! i) i (Suc i) (drop (Suc i) ds)"
      using False nn d by simp
    have lt: "fle (ds ! i) mp" and nle: "\<not> fle mp (ds ! i)"
      using False fle_total [OF nn nx] by (auto simp: fge_def)
    have p1: "\<forall>t<Suc i. fle (ds ! i) (ds ! t)"
      using Suc.prems(6) lt fle_refl [OF nx] by (auto simp: less_Suc_eq intro: fle_trans)
    have p2: "\<forall>t<i. flt (ds ! i) (ds ! t)"
    proof (intro allI impI)
      fix t assume t: "t < i"
      have a: "fle (ds ! i) (ds ! t)" using p1 t by simp
      have b: "\<not> fle (ds ! t) (ds ! i)"
        using Suc.prems(6) t nle fle_trans by blast
      show "flt (ds ! i) (ds ! t)" using a b by (simp add: flt_def)
    qed
    show ?thesis
      unfolding r
      by (rule Suc.IH) (use Suc.prems il p1 p2 in auto)
  qed
qed

lemma argmin_loop_first_nan:
  assumes "n = length ds - i" and "i \<le> length ds" and "m < i" and "ds ! m = mp"
    and "\<exists>t<length ds. isnan (ds ! t)"
    and "(isnan mp \<and> (\<forall>t<m. \<not> isnan (ds ! t))) \<or> (\<forall>t<i. \<not> isnan (ds ! t))"
  shows "argmin_loop mp m i (drop i ds) < length ds \<and>
         isnan (ds ! argmin_loop mp m i (drop i ds)) \<and>
         (\<forall>t<argmin_loop mp m i (drop i ds). \<not> isnan (ds ! t))"
  using assms
proof (induction n arbitrary: i m mp)
  case 0
  then have e: "drop i ds = []" and "i = length ds" by simp_all
  with 0 show ?case by auto
next
  case (Suc n)
  then have il: "i < length ds" by simp
  then have d: "drop i ds = ds ! i # drop (Suc i) ds"
    by (simp add: Cons_nth_drop_Suc)
  show ?case
  proof (cases "isnan mp")
    case True
    then have r: "argmin_loop mp m i (drop i ds) = m" using d by simp
    show ?thesis unfolding r using True Suc.prems il by auto
  next
    case nn: False
    then have pre: "\<forall>t<i. \<not> isnan (ds ! t)" using Suc.prems by auto
    show ?thesis
    proof (cases "fge (ds ! i) mp")
      case True
      have r: "argmin_loop mp m i (drop i ds) = argmin_loop mp m (Suc i) (drop (Suc i) ds)"
        using True nn d by simp
      have nx: "\<not> isnan (ds ! i)"
        using True by (cases "ds ! i"; cases mp) (auto simp: fge_def)
      have p1: "\<forall>t<Suc i. \<not> isnan (ds ! t)" using pre nx by (auto simp: less_Suc_eq)
      show ?thesis
        unfolding r
        by (rule Suc.IH) (use Suc.prems il p1 in auto)
    next
      case False
      have r: "argmin_loop mp m i (drop i ds) = argmin_loop (ds ! i) i (Suc i) (drop (Suc i) ds)"
        using False nn d by simp
      have p1: "(isnan (ds ! i) \<and> (\<forall>t<i. \<not> isnan (ds ! t))) \<or> (\<forall>t<Suc i. \<not> isnan (ds ! t))"
        using pre by (auto simp: less_Suc_eq)
      show ?thesis
        unfolding r
        by (rule Suc.IH) (use Suc.prems il p1 in auto)
    qed
  qed
qed

lemma argmin_no_nan:
  assumes "d \<noteq> []" and "\<forall>t<length d. \<not> isnan (d ! t)"
  shows "\<exists>k<length d. argmin d = Inr k \<and> (\<forall>t<length d. fle (d ! k) (d ! t)) \<and>
           (\<forall>t<k. flt (d ! k) (d ! t))"
proof -
  obtain x xs where d: "d = x # xs" using assms(1) by (cases d) auto
  have nx: "\<not> isnan x" using assms(2) d by auto
  have "argmin_loop x 0 1 (drop 1 d) < length d \<and>
         (\<forall>t<length d. fle (d ! argmin_loop x 0 1 (drop 1 d)) (d ! t)) \<and>
         (\<forall>t<argmin_loop x 0 1 (drop 1 d). flt (d ! argmin_loop x 0 1 (drop 1 d)) (d ! t))"
    by (rule argmin_loop_first_min [where n = "length d - 1"])
       (use d assms(2) fle_refl [OF nx] in auto)
  then show ?thesis using d by auto
qed

lemma argmin_some_nan:
  assumes "\<exists>t<length d. isnan (d ! t)"
  shows "\<exists>k<length d. argmin d = Inr k \<and> isnan (d ! k) \<and> (\<forall>t<k. \<not> isnan (d ! t))"
proof -
  obtain x xs where d: "d = x # xs" using assms by (cases d) auto
  have "argmin_loop x 0 1 (drop 1 d) < length d \<and>
         isnan (d ! argmin_loop x 0 1 (drop 1 d)) \<and>
         (\<forall>t<argmin_loop x 0 1 (drop 1 d). \<not> isnan (d ! t))"
    by (rule argmin_loop_first_nan [where n = "length d - 1"])
       (use d assms in auto)
  then show ?thesis using d by auto
qed

lemma argmin_in_range: "d \<noteq> [] \<Longrightarrow> \<exists>k<length d. argmin d = Inr k"
  using argmin_loop_bound [of 0 1] by (cases d) auto

lemma nearest_index_of_argmin:
  "argmin (distances arr q) = Inr k \<Longrightarrow> k < length arr \<Longrightarrow> nearest_index arr q = Inr (int k)"
  by (auto simp: nearest_index_def clip_def)

lemma nearest_index_in_range:
  "arr \<noteq> [] \<Longrightarrow> \<exists>k<length arr. nearest_index arr q = Inr (int k) \<and> argmin (distances arr q) = Inr k"
  using argmin_in_range [of "distances arr q"] nearest_index_of_argmin [of arr q]
  by (auto simp: distances_def)

section \<open>Facts about the example environments\<close>

lemma find_empty: "find_data_file empty_world = None"
  by (simp add: find_data_file_def empty_world_def candidates_def)

lemma find_with: "find_data_file (world_with ds) = Some ''/srv/habitat_index_H.nc''"
  by (simp add: find_data_file_def world_with_def candidates_def path_join_def join2_def
      DATA_FILENAME_def)

lemma load_with:
  "load_h_dataset (world_with (dataset_of H la lo)) ''/srv/habitat_index_H.nc''
   = Inr (dataset_of H la lo)"
  by (simp add: load_h_dataset_def world_with_def dataset_of_def)

lemma strptime_slashes: "strptime ''2024/01/01'' = Inl ValueError"
  by (simp add: strptime_def is_digit_def digit_val_def)

section \<open>Requests without a dataset file\<close>

lemma get_predict_without_file:
  "find_data_file w = None \<Longrightarrow>
   get_predict w latQ lonQ =
     (if isfinite latQ \<and> isfinite lonQ
      then HTTP_OK (predict_json (PredictDefault latQ lonQ (Fin (1 / 2)) default_note))
      else HTTP_Error 500)"
  by (simp add: get_predict_def predict_def respond_def)

text \<open>
  Claim C4, as amended. When no dataset file is found, the handler of \<^verbatim>\<open>/predict\<close>
  returns the query coordinates, the value 0.5 and the explanatory note, whatever the
  query; when both coordinates are finite numbers the client receives them with status
  200.
\<close>

theorem predict_without_file:
  "find_data_file w = None \<Longrightarrow>
   predict w latQ lonQ = Inr (PredictDefault latQ lonQ (Fin (1 / 2)) default_note) \<and>
   (isfinite latQ \<and> isfinite lonQ \<longrightarrow>
      get_predict w latQ lonQ
      = HTTP_OK (JDict [(''lat'', JFloat latQ), (''lon'', JFloat lonQ),
                        (''H'', JFloat (Fin (1 / 2))), (''note'', JStr default_note)]))"
  by (simp add: predict_def get_predict_without_file)

theorem predict_without_file_witness:
  "find_data_file empty_world = None \<and> isfinite (Fin 1000) \<and> isfinite (Fin (- 1000)) \<and>
   predict empty_world (Fin 1000) (Fin (- 1000))
   = Inr (PredictDefault (Fin 1000) (Fin (- 1000)) (Fin (1 / 2)) default_note) \<and>
   get_predict empty_world (Fin 1000) (Fin (- 1000))
   = HTTP_OK (JDict [(''lat'', JFloat (Fin 1000)), (''lon'', JFloat (Fin (- 1000))),
                     (''H'', JFloat (Fin (1 / 2))), (''note'', JStr default_note)])"
  using find_empty predict_without_file [OF find_empty, of "Fin 1000" "Fin (- 1000)"] by simp

text \<open>
  The claim as stated fails for a query that is not a finite number, which the query
  string \<^verbatim>\<open>lon=nan\<close> gives: the handler echoes it, the encoder refuses it, and the
  client receives status 500.
\<close>

theorem predict_nan_query_counterexample:
  "find_data_file empty_world = None \<and>
   predict empty_world (Fin 1000) NaN
   = Inr (PredictDefault (Fin 1000) NaN (Fin (1 / 2)) default_note) \<and>
   get_predict empty_world (Fin 1000) NaN = HTTP_Error 500 \<and>
   \<not> (\<forall>w latQ lonQ. find_data_file w = None
         \<longrightarrow> (\<exists>body. get_predict w latQ lonQ = HTTP_OK body))"
proof -
  have e: "get_predict empty_world (Fin 1000) NaN = HTTP_Error 500"
    using get_predict_without_file [OF find_empty, of "Fin 1000" NaN] by simp
  have "\<not> (\<forall>w latQ lonQ. find_data_file w = None
         \<longrightarrow> (\<exists>body. get_predict w latQ lonQ = HTTP_OK body))"
  proof
    assume "\<forall>w latQ lonQ. find_data_file w = None
         \<longrightarrow> (\<exists>body. get_predict w latQ lonQ = HTTP_OK body)"
    with find_empty obtain body where "get_predict empty_world (Fin 1000) NaN = HTTP_OK body"
      by blast
    with e show False by simp
  qed
  then show ?thesis using find_empty e by (simp add: predict_def)
qed

text \<open>
  Claim C9. When no dataset file is found, \<^verbatim>\<open>/analyze\<close> returns the response of
  status 200 with the explanatory message for every value of the date parameter, a date
  that does not parse included: the date is looked at only after the file was found.
\<close>

theorem analyze_without_file:
  "find_data_file w = None \<Longrightarrow>
   analyze w date = Inr (JSONResponse 200 no_file_message DATA_FILENAME)"
  by (simp add: analyze_def)

theorem analyze_without_file_witness:
  "find_data_file empty_world = None \<and> strptime ''2024/01/01'' = Inl ValueError \<and>
   analyze empty_world (Some ''2024/01/01'')
   = Inr (JSONResponse 200 no_file_message DATA_FILENAME)"
  using find_empty strptime_slashes
    analyze_without_file [OF find_empty, of "Some ''2024/01/01''"] by simp

section \<open>The date of /analyze\<close>

lemma analyze_try_bad_date:
  "strptime d = Inl e \<Longrightarrow> \<exists>x. analyze_try w p (Some d) = Inl x"
  by (simp add: analyze_try_def Let_def split: sum.splits option.splits)

lemma analyze_bad_date_500:
  "find_data_file w = Some p \<Longrightarrow> strptime d = Inl e \<Longrightarrow>
   analyze w (Some d) = Inl (HTTPException 500)"
  using analyze_try_bad_date [of d e w p] by (auto simp: analyze_def)

lemma analyze_never_400: "analyze w date \<noteq> Inl (HTTPException 400)"
  by (simp add: analyze_def split: option.splits sum.splits)

text \<open>
  Claim C1. With a dataset file that loads, a date that does not match
  \<^verbatim>\<open>YYYY-MM-DD\<close> should give status 400. The handler raises that exception inside its
  \<^verbatim>\<open>try\<close> block, whose \<^verbatim>\<open>except Exception\<close> turns it into status 500: the request
  \<^verbatim>\<open>/analyze?date=2024/01/01\<close> on the example dataset ends with status 500.
\<close>

theorem analyze_bad_date:
  "analyze (world_with example_dataset) (Some ''2024/01/01'') = Inl (HTTPException 500)"
  by (rule analyze_bad_date_500 [OF find_with strptime_slashes])

section \<open>The aggregation parameter of /series\<close>

lemma series_try_default:
  assumes "agg \<noteq> ''lat_mean''" and "agg \<noteq> ''lon_mean''"
  shows "series_try w p agg = series_try w p ''global''"
proof -
  have a: "(agg = ''lat_mean'') = False" "(agg = ''lon_mean'') = False"
    using assms by blast+
  have g: "(''global'' = ''lat_mean'') = False" "(''global'' = ''lon_mean'') = False"
    by simp_all
  show ?thesis
    unfolding series_try_def a g if_False ..
qed

section \<open>The nearest index of /predict\<close>

lemma first_minimum_argmin:
  assumes "d \<noteq> []"
  shows "\<exists>k. argmin d = Inr k \<and> first_minimum d k"
proof (cases "list_ex isnan d")
  case True
  then have "\<exists>t<length d. isnan (d ! t)"
    by (auto simp: list_ex_iff in_set_conv_nth)
  from argmin_some_nan [OF this] True show ?thesis
    by (auto simp: first_minimum_def)
next
  case False
  then have "\<forall>t<length d. \<not> isnan (d ! t)"
    by (auto simp: list_ex_iff)
  from argmin_no_nan [OF assms this] False show ?thesis
    by (auto simp: first_minimum_def)
qed

lemma nearest_index_first_minimum:
  assumes "arr \<noteq> []"
  shows "\<exists>k. nearest_index arr q = Inr (int k) \<and> first_minimum (distances arr q) k"
proof -
  have "distances arr q \<noteq> []" using assms by (simp add: distances_def)
  from first_minimum_argmin [OF this] obtain k where
    k: "argmin (distances arr q) = Inr k" "first_minimum (distances arr q) k" by blast
  then have "k < length arr" by (simp add: first_minimum_def distances_def)
  with k nearest_index_of_argmin [of arr q k] show ?thesis by blast
qed

lemma nearest_index_Inr_nonempty: "nearest_index arr q = Inr i \<Longrightarrow> arr \<noteq> []"
  by (auto simp: nearest_index_def distances_def)

lemma predict_try_indices:
  assumes "load_h_dataset w p = Inr ds" and "coord_lat ds = Some la" and "coord_lon ds = Some lo"
    and "predict_try w p latQ lonQ = Inr (PredictPayload a b v i j)"
  shows "nearest_index la latQ = Inr i \<and> nearest_index lo lonQ = Inr j"
  using assms by (auto simp: predict_try_def split: option.splits sum.splits)

lemma predict_indices:
  assumes "find_data_file w = Some p" and "load_h_dataset w p = Inr ds"
    and "coord_lat ds = Some la" and "coord_lon ds = Some lo"
    and "predict w latQ lonQ = Inr (PredictPayload a b v i j)"
  shows "nearest_index la latQ = Inr i \<and> nearest_index lo lonQ = Inr j"
proof -
  have "predict_try w p latQ lonQ = Inr (PredictPayload a b v i j)"
    using assms(1,5) by (auto simp: predict_def split: sum.splits)
  from predict_try_indices [OF assms(2,3,4) this] show ?thesis .
qed

text \<open>
  Claim C8, as amended. For a loaded dataset and a query for which \<^verbatim>\<open>/predict\<close> returns
  indices, each index is the first minimum of the computed distances
  \<open>|axis[t] - query|\<close>: when no distance is not-a-number, no entry is nearer and every
  earlier entry is strictly farther, so a tie goes to the first entry met; when some
  distance is not-a-number, the index is the first such position. The indices are a
  function of the dataset and the query: two runs give the same pair.
\<close>

theorem predict_ties_first:
  assumes "find_data_file w = Some p" and "load_h_dataset w p = Inr ds"
    and "coord_lat ds = Some la" and "coord_lon ds = Some lo"
    and "predict w latQ lonQ = Inr (PredictPayload a b v i j)"
  shows "(\<exists>k. i = int k \<and> first_minimum (distances la latQ) k) \<and>
         (\<exists>k. j = int k \<and> first_minimum (distances lo lonQ) k)"
proof -
  from predict_indices [OF assms] have
    i: "nearest_index la latQ = Inr i" and j: "nearest_index lo lonQ = Inr j" by simp_all
  from nearest_index_first_minimum [OF nearest_index_Inr_nonempty [OF i], of latQ] i
  have 1: "\<exists>k. i = int k \<and> first_minimum (distances la latQ) k" by auto
  from nearest_index_first_minimum [OF nearest_index_Inr_nonempty [OF j], of lonQ] j
  have 2: "\<exists>k. j = int k \<and> first_minimum (distances lo lonQ) k" by auto
  from 1 2 show ?thesis ..
qed

subsection \<open>Indices inside the grid\<close>


lemma fabs_round64: "\<not> isnan (fabs (round64 z))"
  using round64_not_nan [of z] by (cases "round64 z") auto

lemma distance_not_nan:
  assumes "isfinite q" and "fle y q \<or> fle q y"
  shows "\<not> isnan (fabs (fsub y q))"
proof -
  obtain c where q: "q = Fin c" using assms(1) by (cases q) auto
  show ?thesis
    using assms(2) fabs_round64 by (cases y) (auto simp: fsub_def q)
qed

lemma distance_above:
  assumes "isfinite q" and "fle x y" and "fle y q"
  shows "fle (fabs (fsub y q)) (fabs (fsub x q))"
proof -
  obtain c where q: "q = Fin c" using assms(1) by (cases q) auto
  show ?thesis
  proof (cases x)
    case (Fin a)
    then obtain b where y: "y = Fin b" and ab: "a \<le> b" and bc: "b \<le> c"
      using assms(2,3) q by (cases y) auto
    have 1: "fle (round64 (a - c)) (round64 (b - c))" by (rule round64_mono) (use ab in simp)
    have "fle (round64 (b - c)) (round64 0)" by (rule round64_mono) (use bc in simp)
    then have 2: "fle (round64 (b - c)) (Fin 0)" by (simp add: round64_0)
    show ?thesis using fabs_antimono [OF 1 2] by (simp add: fsub_def Fin y q)
  next
    case NInf
    have "\<not> isnan (fabs (fsub y q))"
      by (rule distance_not_nan [OF assms(1)]) (use assms(3) in simp)
    then show ?thesis by (cases "fabs (fsub y q)") (simp_all add: NInf q fsub_def)
  next
    case PInf
    then show ?thesis using assms(2,3) q by (cases y) auto
  next
    case NaN
    then show ?thesis using assms(2) by simp
  qed
qed

lemma distance_below:
  assumes "isfinite q" and "fle q x" and "fle x y"
  shows "fle (fabs (fsub x q)) (fabs (fsub y q))"
proof -
  obtain c where q: "q = Fin c" using assms(1) by (cases q) auto
  show ?thesis
  proof (cases y)
    case (Fin b)
    then obtain a where x: "x = Fin a" and ab: "a \<le> b" and ca: "c \<le> a"
      using assms(2,3) q by (cases x) auto
    have 1: "fle (round64 (a - c)) (round64 (b - c))" by (rule round64_mono) (use ab in simp)
    have "fle (round64 0) (round64 (a - c))" by (rule round64_mono) (use ca in simp)
    then have 2: "fle (Fin 0) (round64 (a - c))" by (simp add: round64_0)
    show ?thesis using fabs_mono [OF 2 1] by (simp add: fsub_def Fin x q)
  next
    case PInf
    have "\<not> isnan (fabs (fsub x q))"
      by (rule distance_not_nan [OF assms(1)]) (use assms(2) in simp)
    then show ?thesis by (cases "fabs (fsub x q)") (simp_all add: PInf q fsub_def)
  next
    case NInf
    then show ?thesis using assms(2,3) q by (cases x) auto
  next
    case NaN
    then show ?thesis using assms(3) by (cases x) auto
  qed
qed

lemma first_minimum_tied:
  assumes fm: "first_minimum d k" and t: "t < length d"
    and least: "\<forall>s<length d. fle (d ! t) (d ! s)"
  shows "k \<le> t \<and> d ! k = d ! t \<and> list_all (\<lambda>x. x \<noteq> d ! t) (take k d)"
proof -
  have nn: "\<not> list_ex isnan d"
  proof
    assume "list_ex isnan d"
    then obtain s where "s < length d" "isnan (d ! s)"
      by (auto simp: list_ex_iff in_set_conv_nth)
    with least have "fle (d ! t) NaN" by (cases "d ! s") auto
    then show False by (cases "d ! t") auto
  qed
  from fm nn have k: "k < length d" and le: "\<forall>s<length d. fle (d ! k) (d ! s)"
    and before: "\<forall>s<k. flt (d ! k) (d ! s)"
    by (simp_all add: first_minimum_def)
  have eq: "d ! k = d ! t" using le t least k by (auto intro: fle_antisym)
  have kt: "k \<le> t"
  proof (rule ccontr)
    assume "\<not> k \<le> t"
    then have "flt (d ! k) (d ! t)" using before by simp
    then show False using eq fm by (simp add: flt_def)
  qed
  have "x \<noteq> d ! t" if "x \<in> set (take k d)" for x
  proof -
    from that obtain s where s: "s < k" "x = d ! s"
      using k by (auto simp: in_set_conv_nth)
    then have "flt (d ! k) x" using before by simp
    then show ?thesis unfolding eq [symmetric] by (auto simp: flt_def)
  qed
  then show ?thesis using kt eq by (simp add: list_all_iff)
qed

lemma nearest_tied_above:
  assumes fm: "first_minimum (distances arr q) k"
    and "isfinite q" and "list_all (\<lambda>x. fle x q) arr" and "largest_at arr t"
  shows "first_tied_with arr q k t"
proof -
  have t: "t < length arr" and big: "\<forall>s<length arr. fle (arr ! s) (arr ! t)"
    using assms(4) by (simp_all add: largest_at_def list_all_length)
  have tq: "fle (arr ! t) q" using assms(3) t by (simp add: list_all_length)
  have least: "\<forall>s<length (distances arr q). fle (distances arr q ! t) (distances arr q ! s)"
    using distance_above [OF assms(2) _ tq] big by (simp add: distances_def t)
  from first_minimum_tied [OF fm _ least] t show ?thesis
    by (simp add: first_tied_with_def distances_def)
qed

lemma nearest_tied_below:
  assumes fm: "first_minimum (distances arr q) k"
    and "isfinite q" and "list_all (\<lambda>x. fle q x) arr" and "smallest_at arr t"
  shows "first_tied_with arr q k t"
proof -
  have t: "t < length arr" and small: "\<forall>s<length arr. fle (arr ! t) (arr ! s)"
    using assms(4) by (simp_all add: smallest_at_def list_all_length)
  have qt: "fle q (arr ! t)" using assms(3) t by (simp add: list_all_length)
  have least: "\<forall>s<length (distances arr q). fle (distances arr q ! t) (distances arr q ! s)"
    using distance_below [OF assms(2) qt] small by (simp add: distances_def t)
  from first_minimum_tied [OF fm _ least] t show ?thesis
    by (simp add: first_tied_with_def distances_def)
qed

lemma predict_loaded:
  assumes "find_data_file w = Some p" and "load_h_dataset w p = Inr ds"
    and "var_H_index ds = Some H" and "coord_lat ds = Some la" and "coord_lon ds = Some lo"
    and "nearest_index la latQ = Inr i" and "nearest_index lo lonQ = Inr j"
    and "getitem2 H i j = Inr v"
  shows "predict w latQ lonQ = Inr (PredictPayload latQ lonQ (if isfinite v then v else NaN) i j)"
  using assms by (simp add: predict_def predict_try_def)

lemma getitem2_in_shape:
  "i < n_lat H \<Longrightarrow> j < n_lon H \<Longrightarrow> getitem2 H (int i) (int j) = Inr (cell H i j)"
  by (simp add: getitem2_def Let_def)

text \<open>
  Claim C3, as amended. For every loaded dataset whose axes are not empty and whose grid
  has their shape, and for every query pair, finite or not, \<^verbatim>\<open>/predict\<close> returns indices
  \<open>i < n_lat\<close> and \<open>j < n_lon\<close>, each the first index of minimal computed distance
  \<open>|axis[t] - query|\<close>. For a finite query at or beyond the largest value of an axis, the
  index is the first one whose computed distance equals that of an entry holding the
  largest value: that entry itself unless the rounding of the subtraction makes an
  earlier entry tie with it. The same holds at or below the smallest value.
\<close>

theorem predict_indices_in_range:
  assumes "find_data_file w = Some p" and "load_h_dataset w p = Inr ds"
    and "var_H_index ds = Some H" and "coord_lat ds = Some la" and "coord_lon ds = Some lo"
    and "la \<noteq> []" and "lo \<noteq> []" and "n_lat H = length la" and "n_lon H = length lo"
  shows "\<exists>i j v. predict w latQ lonQ = Inr (PredictPayload latQ lonQ v (int i) (int j)) \<and>
           i < n_lat H \<and> j < n_lon H \<and>
           first_minimum (distances la latQ) i \<and> first_minimum (distances lo lonQ) j \<and>
           (\<forall>t. at_or_above la latQ \<and> largest_at la t \<longrightarrow> first_tied_with la latQ i t) \<and>
           (\<forall>t. at_or_below la latQ \<and> smallest_at la t \<longrightarrow> first_tied_with la latQ i t) \<and>
           (\<forall>t. at_or_above lo lonQ \<and> largest_at lo t \<longrightarrow> first_tied_with lo lonQ j t) \<and>
           (\<forall>t. at_or_below lo lonQ \<and> smallest_at lo t \<longrightarrow> first_tied_with lo lonQ j t)"
proof -
  from nearest_index_first_minimum [OF assms(6), of latQ] obtain i where
    i: "nearest_index la latQ = Inr (int i)" "first_minimum (distances la latQ) i" by blast
  from nearest_index_first_minimum [OF assms(7), of lonQ] obtain j where
    j: "nearest_index lo lonQ = Inr (int j)" "first_minimum (distances lo lonQ) j" by blast
  have il: "i < n_lat H" using i(2) assms(8) by (simp add: first_minimum_def distances_def)
  have jl: "j < n_lon H" using j(2) assms(9) by (simp add: first_minimum_def distances_def)
  note p = predict_loaded [OF assms(1-5) i(1) j(1) getitem2_in_shape [OF il jl]]
  have ia: "\<forall>t. at_or_above la latQ \<and> largest_at la t \<longrightarrow> first_tied_with la latQ i t"
    using nearest_tied_above [OF i(2)] by (simp add: at_or_above_def)
  have ib: "\<forall>t. at_or_below la latQ \<and> smallest_at la t \<longrightarrow> first_tied_with la latQ i t"
    using nearest_tied_below [OF i(2)] by (simp add: at_or_below_def)
  have ja: "\<forall>t. at_or_above lo lonQ \<and> largest_at lo t \<longrightarrow> first_tied_with lo lonQ j t"
    using nearest_tied_above [OF j(2)] by (simp add: at_or_above_def)
  have jb: "\<forall>t. at_or_below lo lonQ \<and> smallest_at lo t \<longrightarrow> first_tied_with lo lonQ j t"
    using nearest_tied_below [OF j(2)] by (simp add: at_or_below_def)
  show ?thesis
    using p il jl i(2) j(2) ia ib ja jb by blast
qed

subsection \<open>Worked requests\<close>

lemma round64_small:
  "round64 (- 5) = Fin (- 5)" "round64 5 = Fin 5" "round64 (- 10) = Fin (- 10)"
  "round64 (- 990) = Fin (- 990)" "round64 (- 980) = Fin (- 980)"
  "round64 1100 = Fin 1100" "round64 1110 = Fin 1110"
  using round64_ge1 [of 2 "- 5"] round64_ge1 [of 2 5] round64_ge1 [of 3 "- 10"]
    round64_ge1 [of 9 "- 990"] round64_ge1 [of 9 "- 980"]
    round64_ge1 [of 10 1100] round64_ge1 [of 10 1110]
  by (simp_all add: r64)

lemma round64_far:
  "round64 (- 18014398509481984) = Fin (- 18014398509481984)"
  "round64 (- 18014398509481976) = Fin (- 18014398509481976)"
  "round64 (- (36028797018963951 / 2)) = Fin (- 18014398509481976)"
  using round64_ge1 [of 54 "- 18014398509481984"] round64_ge1 [of 53 "- 18014398509481976"]
    round64_ge1 [of 53 "- (36028797018963951 / 2)"]
  by (simp_all add: r64)

lemma distances_tie:
  "distances [Fin 10, Fin 20] (Fin 15) = [Fin 5, Fin 5]"
  "distances [Fin 100, Fin 110] (Fin 110) = [Fin 10, Fin 0]"
  by (simp_all add: distances_def fsub_def round64_small round64_0)

lemma distances_out:
  "distances [Fin 10, Fin 20] (Fin 1000) = [Fin 990, Fin 980]"
  "distances [Fin 100, Fin 110] (Fin (- 1000)) = [Fin 1100, Fin 1110]"
  by (simp_all add: distances_def fsub_def round64_small)

lemma distances_far:
  "distances [Fin 0, Fin 8, Fin (17 / 2)] (Fin 18014398509481984)
   = [Fin 18014398509481984, Fin 18014398509481976, Fin 18014398509481976]"
  "distances [Fin 0] (Fin 0) = [Fin 0]"
  by (simp_all add: distances_def fsub_def round64_far round64_0)

lemma distances_inf:
  "distances [Fin 1, Fin 1, PInf] PInf = [PInf, PInf, NaN]"
  by (simp add: distances_def fsub_def)

lemma nearest_index_examples:
  "nearest_index [Fin 10, Fin 20] (Fin 15) = Inr 0"
  "nearest_index [Fin 100, Fin 110] (Fin 110) = Inr 1"
  "nearest_index [Fin 10, Fin 20] (Fin 1000) = Inr 1"
  "nearest_index [Fin 100, Fin 110] (Fin (- 1000)) = Inr 0"
  "nearest_index [Fin 0, Fin 8, Fin (17 / 2)] (Fin 18014398509481984) = Inr 1"
  "nearest_index [Fin 0] (Fin 0) = Inr 0"
  "nearest_index [Fin 1, Fin 1, PInf] PInf = Inr 2"
  by (simp_all add: nearest_index_def distances_tie distances_out distances_far distances_inf
      fge_def clip_def)

lemma example_load:
  "load_h_dataset (world_with example_dataset) ''/srv/habitat_index_H.nc'' = Inr example_dataset"
  unfolding example_dataset_def by (rule load_with)

lemma example_loaded:
  "var_H_index example_dataset = Some example_grid"
  "coord_lat example_dataset = Some [Fin 10, Fin 20]"
  "coord_lon example_dataset = Some [Fin 100, Fin 110]"
  "n_lat example_grid = 2" "n_lon example_grid = 2"
  by (simp_all add: example_dataset_def dataset_of_def example_grid_def grid_of_def)

lemma far_load:
  "load_h_dataset (world_with far_dataset) ''/srv/habitat_index_H.nc'' = Inr far_dataset"
  unfolding far_dataset_def by (rule load_with)

lemma far_loaded:
  "var_H_index far_dataset = Some (grid_of 3 1 [[Fin 1], [Fin 2], [Fin 3]])"
  "coord_lat far_dataset = Some [Fin 0, Fin 8, Fin (17 / 2)]"
  "coord_lon far_dataset = Some [Fin 0]"
  by (simp_all add: far_dataset_def dataset_of_def)

lemma predict_example_tie:
  "predict (world_with example_dataset) (Fin 15) (Fin 110)
   = Inr (PredictPayload (Fin 15) (Fin 110) NaN 0 1)"
  using predict_loaded [OF find_with example_load example_loaded(1-3) nearest_index_examples(1,2),
      of NaN]
  by (simp add: getitem2_def example_grid_def grid_of_def)

lemma predict_example_out:
  "predict (world_with example_dataset) (Fin 1000) (Fin (- 1000))
   = Inr (PredictPayload (Fin 1000) (Fin (- 1000)) (Fin (3 / 4)) 1 0)"
  using predict_loaded [OF find_with example_load example_loaded(1-3) nearest_index_examples(3,4),
      of "Fin (3 / 4)"]
  by (simp add: getitem2_def example_grid_def grid_of_def)

lemma predict_far:
  "predict (world_with far_dataset) (Fin 18014398509481984) (Fin 0)
   = Inr (PredictPayload (Fin 18014398509481984) (Fin 0) (Fin 2) 1 0)"
  using predict_loaded [OF find_with far_load far_loaded(1-3) nearest_index_examples(5,6),
      of "Fin 2"]
  by (simp add: getitem2_def grid_of_def)

subsection \<open>Ties\<close>

theorem predict_ties_first_witness:
  "find_data_file (world_with example_dataset) = Some ''/srv/habitat_index_H.nc'' \<and>
   load_h_dataset (world_with example_dataset) ''/srv/habitat_index_H.nc'' = Inr example_dataset \<and>
   coord_lat example_dataset = Some [Fin 10, Fin 20] \<and>
   coord_lon example_dataset = Some [Fin 100, Fin 110] \<and>
   predict (world_with example_dataset) (Fin 15) (Fin 110)
     = Inr (PredictPayload (Fin 15) (Fin 110) NaN 0 1) \<and>
   distances [Fin 10, Fin 20] (Fin 15) = [Fin 5, Fin 5] \<and>
   first_minimum (distances [Fin 10, Fin 20] (Fin 15)) 0 \<and>
   first_minimum (distances [Fin 100, Fin 110] (Fin 110)) 1"
proof -
  from predict_ties_first [OF find_with example_load example_loaded(2,3) predict_example_tie]
  have "first_minimum (distances [Fin 10, Fin 20] (Fin 15)) 0"
    and "first_minimum (distances [Fin 100, Fin 110] (Fin 110)) 1"
    by auto
  then show ?thesis
    using find_with example_load example_loaded(2,3) predict_example_tie distances_tie(1)
    by simp
qed

text \<open>
  The claim as stated fails on the axis 1, 1, infinity with the query infinity: the first
  two entries are at the same distance, infinity, the third has none (infinity minus
  infinity is not-a-number), and the search returns the third index.
\<close>

theorem nearest_index_nan_counterexample:
  "distances [Fin 1, Fin 1, PInf] PInf = [PInf, PInf, NaN] \<and>
   nearest_index [Fin 1, Fin 1, PInf] PInf = Inr 2 \<and>
   \<not> (\<forall>arr q k. nearest_index arr q = Inr (int k) \<longrightarrow>
         (\<forall>t<length arr. (\<forall>s<length arr. \<not> flt (distances arr q ! s) (distances arr q ! t))
            \<longrightarrow> k \<le> t))"
proof -
  have "\<not> (\<forall>arr q k. nearest_index arr q = Inr (int k) \<longrightarrow>
         (\<forall>t<length arr. (\<forall>s<length arr. \<not> flt (distances arr q ! s) (distances arr q ! t))
            \<longrightarrow> k \<le> t))"
  proof
    assume a: "\<forall>arr q k. nearest_index arr q = Inr (int k) \<longrightarrow>
         (\<forall>t<length arr. (\<forall>s<length arr. \<not> flt (distances arr q ! s) (distances arr q ! t))
            \<longrightarrow> k \<le> t)"
    have n: "nearest_index [Fin 1, Fin 1, PInf] PInf = Inr (int 2)"
      using nearest_index_examples(7) by simp
    have m: "\<forall>s<length [Fin 1, Fin 1, PInf].
        \<not> flt (distances [Fin 1, Fin 1, PInf] PInf ! s) (distances [Fin 1, Fin 1, PInf] PInf ! 0)"
      by (simp add: distances_inf flt_def less_Suc_eq nth_Cons')
    from a n m have "(2::nat) \<le> 0" by (metis length_Cons zero_less_Suc)
    then show False by simp
  qed
  then show ?thesis using distances_inf nearest_index_examples(7) by blast
qed

subsection \<open>Queries outside the axes\<close>

theorem predict_indices_in_range_witness:
  "find_data_file (world_with example_dataset) = Some ''/srv/habitat_index_H.nc'' \<and>
   load_h_dataset (world_with example_dataset) ''/srv/habitat_index_H.nc'' = Inr example_dataset \<and>
   var_H_index example_dataset = Some example_grid \<and>
   coord_lat example_dataset = Some [Fin 10, Fin 20] \<and>
   coord_lon example_dataset = Some [Fin 100, Fin 110] \<and>
   [Fin 10, Fin 20] \<noteq> [] \<and> [Fin 100, Fin 110] \<noteq> [] \<and>
   n_lat example_grid = length [Fin 10, Fin 20] \<and>
   n_lon example_grid = length [Fin 100, Fin 110] \<and>
   predict (world_with example_dataset) (Fin 1000) (Fin (- 1000))
     = Inr (PredictPayload (Fin 1000) (Fin (- 1000)) (Fin (3 / 4)) 1 0) \<and>
   at_or_above [Fin 10, Fin 20] (Fin 1000) \<and> largest_at [Fin 10, Fin 20] 1 \<and>
   first_tied_with [Fin 10, Fin 20] (Fin 1000) 1 1 \<and>
   at_or_below [Fin 100, Fin 110] (Fin (- 1000)) \<and> smallest_at [Fin 100, Fin 110] 0 \<and>
   first_tied_with [Fin 100, Fin 110] (Fin (- 1000)) 0 0"
proof -
  have ne: "[Fin 10, Fin 20] \<noteq> []" "[Fin 100, Fin 110] \<noteq> []" by simp_all
  have sh: "n_lat example_grid = length [Fin 10, Fin 20]"
    "n_lon example_grid = length [Fin 100, Fin 110]"
    by (simp_all add: example_loaded)
  have a: "at_or_above [Fin 10, Fin 20] (Fin 1000)" "largest_at [Fin 10, Fin 20] 1"
    by (simp_all add: at_or_above_def largest_at_def)
  have b: "at_or_below [Fin 100, Fin 110] (Fin (- 1000))" "smallest_at [Fin 100, Fin 110] 0"
    by (simp_all add: at_or_below_def smallest_at_def)
  from predict_indices_in_range [OF find_with example_load example_loaded(1-3) ne sh,
      of "Fin 1000" "Fin (- 1000)"]
  obtain i j v where
    p: "predict (world_with example_dataset) (Fin 1000) (Fin (- 1000))
        = Inr (PredictPayload (Fin 1000) (Fin (- 1000)) v (int i) (int j))"
    and e: "\<forall>t. at_or_above [Fin 10, Fin 20] (Fin 1000) \<and> largest_at [Fin 10, Fin 20] t
              \<longrightarrow> first_tied_with [Fin 10, Fin 20] (Fin 1000) i t"
           "\<forall>t. at_or_below [Fin 100, Fin 110] (Fin (- 1000)) \<and> smallest_at [Fin 100, Fin 110] t
              \<longrightarrow> first_tied_with [Fin 100, Fin 110] (Fin (- 1000)) j t"
    by blast
  from p predict_example_out have "i = 1" "j = 0" by simp_all
  with e a b have "first_tied_with [Fin 10, Fin 20] (Fin 1000) 1 1"
    "first_tied_with [Fin 100, Fin 110] (Fin (- 1000)) 0 0" by blast+
  then show ?thesis
    using find_with example_load example_loaded(1-3) ne sh predict_example_out a b by simp
qed

text \<open>
  The claim as stated fails for a query far outside the axis: on the latitudes 0, 8, 8.5
  the query \<open>2^54\<close> is at the computed distance \<open>2^54 - 8\<close> from both 8 and 8.5, the
  subtraction being rounded, and resolves to index 1, which is not an extreme index.
\<close>

theorem predict_far_query_counterexample:
  "predict (world_with far_dataset) (Fin 18014398509481984) (Fin 0)
     = Inr (PredictPayload (Fin 18014398509481984) (Fin 0) (Fin 2) 1 0) \<and>
   distances [Fin 0, Fin 8, Fin (17 / 2)] (Fin 18014398509481984)
     = [Fin 18014398509481984, Fin 18014398509481976, Fin 18014398509481976] \<and>
   \<not> (\<forall>arr q i. isfinite q \<and> list_all (\<lambda>x. fle x q) arr \<and> nearest_index arr q = Inr i
         \<longrightarrow> i = 0 \<or> i = int (length arr) - 1)"
proof -
  have "\<not> (\<forall>arr q i. isfinite q \<and> list_all (\<lambda>x. fle x q) arr \<and> nearest_index arr q = Inr i
         \<longrightarrow> i = 0 \<or> i = int (length arr) - 1)"
  proof
    assume a: "\<forall>arr q i. isfinite q \<and> list_all (\<lambda>x. fle x q) arr \<and> nearest_index arr q = Inr i
         \<longrightarrow> i = 0 \<or> i = int (length arr) - 1"
    have "isfinite (Fin 18014398509481984) \<and>
          list_all (\<lambda>x. fle x (Fin 18014398509481984)) [Fin 0, Fin 8, Fin (17 / 2)] \<and>
          nearest_index [Fin 0, Fin 8, Fin (17 / 2)] (Fin 18014398509481984) = Inr 1"
      using nearest_index_examples(5) by simp
    with a have "(1::int) = 0 \<or> (1::int) = int (length [Fin 0, Fin 8, Fin (17 / 2)]) - 1"
      by blast
    then show False by simp
  qed
  then show ?thesis using predict_far distances_far(1) by blast
qed

section \<open>Row and column means\<close>

lemma series_lat_mean:
  assumes "find_data_file w = Some p" and "load_h_dataset w p = Inr ds"
    and "var_H_index ds = Some H" and "coord_lat ds = Some la"
  shows "series w ''lat_mean'' = Inr (LatMean la (map null_unless_finite (nanmean_axis1 H)))"
  using assms by (simp add: series_def series_try_def)


subsection \<open>A sum of zeros is zero, however it is taken\<close>

lemma fadd_zero: "fadd (Fin 0) (Fin 0) = Fin 0"
  by (simp add: round64_def)












lemma pairwise_short: "length xs < 8 \<Longrightarrow> pairwise_sum xs = foldl fadd (Fin 0) xs"
  by (subst pairwise_sum.simps) simp


subsection \<open>Worked means\<close>

lemma upt2: "[0..<2] = [0, 1]"
  by (simp add: numeral_2_eq_2)

lemma round64_means:
  "round64 1 = Fin 1" "round64 2 = Fin 2" "round64 3 = Fin 3" "round64 4 = Fin 4"
  "round64 5 = Fin 5" "round64 6 = Fin 6" "round64 10 = Fin 10"
  "round64 (1 / 2) = Fin (1 / 2)" "round64 (3 / 4) = Fin (3 / 4)"
  "round64 (5 / 4) = Fin (5 / 4)" "round64 (5 / 8) = Fin (5 / 8)"
  "round64 (5 / 2) = Fin (5 / 2)"
  using round64_ge1 [of 0 1] round64_ge1 [of 1 2] round64_ge1 [of 1 3] round64_ge1 [of 2 4]
    round64_ge1 [of 2 5] round64_ge1 [of 2 6] round64_ge1 [of 3 10]
    round64_lt1 [of 0 "1 / 2"] round64_lt1 [of 0 "3 / 4"]
    round64_ge1 [of 0 "5 / 4"] round64_lt1 [of 0 "5 / 8"] round64_ge1 [of 1 "5 / 2"]
  by (simp_all add: r64)

lemmas mean_eval = nanmean_def nanmean_by_def np_sum_def pairwise_short add_rows_def
  nan_to_zero_def not_nan_def round64_means round64_0








subsection \<open>A row long enough to be summed pairwise\<close>

text \<open>
  Thirteen cells holding 0.2: the first eight go into the eight running sums, whose tree
  sum is 1.6, and the five others are added one by one, which gives 2.6000000000000005
  and the mean 0.20000000000000004.
\<close>

lemma fifth_sums:
  "fadd (Fin fifth) (Fin fifth) = Fin (3602879701896397 / 9007199254740992)"
  "fadd (Fin (3602879701896397 / 9007199254740992)) (Fin (3602879701896397 / 9007199254740992))
   = Fin (3602879701896397 / 4503599627370496)"
  "fadd (Fin (3602879701896397 / 4503599627370496)) (Fin (3602879701896397 / 4503599627370496))
   = Fin (3602879701896397 / 2251799813685248)"
  "fadd (Fin (3602879701896397 / 2251799813685248)) (Fin fifth)
   = Fin (8106479329266893 / 4503599627370496)"
  "fadd (Fin (8106479329266893 / 4503599627370496)) (Fin fifth) = Fin 2"
  "fadd (Fin 2) (Fin fifth) = Fin (2476979795053773 / 1125899906842624)"
  "fadd (Fin (2476979795053773 / 1125899906842624)) (Fin fifth)
   = Fin (1351079888211149 / 562949953421312)"
  "fadd (Fin (1351079888211149 / 562949953421312)) (Fin fifth)
   = Fin (2927339757790823 / 1125899906842624)"
  "fadd (Fin 0) (Fin (2927339757790823 / 1125899906842624))
   = Fin (2927339757790823 / 1125899906842624)"
  "fdiv (Fin (2927339757790823 / 1125899906842624)) (Fin 13)
   = Fin (7205759403792795 / 36028797018963968)"
  using round64_lt1 [of 1 "fifth + fifth"]
    round64_lt1 [of 0 "3602879701896397 / 9007199254740992 + 3602879701896397 / 9007199254740992"]
    round64_ge1 [of 0 "3602879701896397 / 4503599627370496 + 3602879701896397 / 4503599627370496"]
    round64_ge1 [of 0 "3602879701896397 / 2251799813685248 + fifth"]
    round64_ge1 [of 1 "8106479329266893 / 4503599627370496 + fifth"]
    round64_ge1 [of 1 "2 + fifth"]
    round64_ge1 [of 1 "2476979795053773 / 1125899906842624 + fifth"]
    round64_ge1 [of 1 "1351079888211149 / 562949953421312 + fifth"]
    round64_ge1 [of 1 "0 + 2927339757790823 / 1125899906842624"]
    round64_lt1 [of 2 "2927339757790823 / 1125899906842624 / 13"]
  by (simp_all add: r64 fifth_def)

lemma tree8_list:
  "tree8 [a, b, c, d, e, f, g, h]
   = fadd (fadd (fadd a b) (fadd c d)) (fadd (fadd e f) (fadd g h))"
  by (simp add: tree8_def)

lemma fifth_pairwise:
  "pairwise_sum fifth_row
   = foldl fadd (tree8 (take 8 fifth_row)) (drop 8 fifth_row)"
proof -
  have l: "\<not> length fifth_row < 8" "length fifth_row \<le> 128" "length (drop 8 fifth_row) < 8"
    by (simp_all add: fifth_row_def)
  have b: "block_loop (take 8 fifth_row) (drop 8 fifth_row) = (take 8 fifth_row, drop 8 fifth_row)"
    using l(3) by (subst block_loop.simps) simp
  show ?thesis
    using l(1,2) by (subst pairwise_sum.simps) (simp add: b)
qed

lemma fifth_np_sum: "np_sum fifth_row = Fin (2927339757790823 / 1125899906842624)"
proof -
  have t: "take 8 fifth_row
           = [Fin fifth, Fin fifth, Fin fifth, Fin fifth, Fin fifth, Fin fifth, Fin fifth, Fin fifth]"
    and d: "drop 8 fifth_row = [Fin fifth, Fin fifth, Fin fifth, Fin fifth, Fin fifth]"
    by (simp_all add: fifth_row_def)
  have tr: "tree8 [Fin fifth, Fin fifth, Fin fifth, Fin fifth, Fin fifth, Fin fifth, Fin fifth, Fin fifth]
            = Fin (3602879701896397 / 2251799813685248)"
    unfolding tree8_list fifth_sums ..
  show ?thesis
    unfolding np_sum_def fifth_pairwise t d tr foldl_Cons foldl_Nil fifth_sums ..
qed

lemma fifth_mean: "nanmean fifth_row = Fin (7205759403792795 / 36028797018963968)"
proof -
  have m: "map nan_to_zero fifth_row = fifth_row"
    by (simp add: nan_to_zero_def fifth_row_def)
  have r13: "round64 13 = Fin 13" using round64_ge1 [of 3 13] by (simp add: r64)
  have c: "round64 (of_nat (length (filter not_nan fifth_row))) = Fin 13"
    by (simp add: not_nan_def fifth_row_def r13)
  show ?thesis
    unfolding nanmean_def nanmean_by_def m c fifth_np_sum fifth_sums ..
qed


lemma fifth_grid:
  "n_lat (grid_of 1 13 [fifth_row]) = 1"
  "row (grid_of 1 13 [fifth_row]) 0 = fifth_row"
proof -
  have len: "length fifth_row = 13" by (simp add: fifth_row_def)
  have "map ((!) fifth_row) [0..<length fifth_row] = fifth_row" by (rule map_nth)
  then have m: "map ((!) fifth_row) [0..<13] = fifth_row" unfolding len .
  show "n_lat (grid_of 1 13 [fifth_row]) = 1" by (simp add: grid_of_def)
  show "row (grid_of 1 13 [fifth_row]) 0 = fifth_row"
    by (simp add: row_def grid_of_def m)
qed

lemma upt1: "[0..<1] = [0::nat]"
  by simp


lemma fifth_load:
  "load_h_dataset (world_with fifth_dataset) ''/srv/habitat_index_H.nc'' = Inr fifth_dataset"
  unfolding fifth_dataset_def by (rule load_with)

lemma fifth_loaded:
  "var_H_index fifth_dataset = Some (grid_of 1 13 [fifth_row])"
  "coord_lat fifth_dataset = Some [Fin 0]"
  by (simp_all add: fifth_dataset_def dataset_of_def)

lemma series_fifth:
  "series (world_with fifth_dataset) ''lat_mean''
   = Inr (LatMean [Fin 0] [Some (Fin (7205759403792795 / 36028797018963968))])"
proof -
  have a: "nanmean_axis1 (grid_of 1 13 [fifth_row]) = [nanmean fifth_row]"
    unfolding nanmean_axis1_def fifth_grid(1) upt1
    by (simp only: list.map fifth_grid(2))
  show ?thesis
    unfolding series_lat_mean [OF find_with fifth_load fifth_loaded] a fifth_mean
    by (simp add: null_unless_finite_def)
qed

section \<open>Cells that are not finite\<close>

lemma get_predict_payload:
  "predict w latQ lonQ = Inr (PredictPayload a b v i j) \<Longrightarrow>
   get_predict w latQ lonQ =
     (if isfinite a \<and> isfinite b \<and> isfinite v
      then HTTP_OK (predict_json (PredictPayload a b v i j)) else HTTP_Error 500)"
  by (simp add: get_predict_def respond_def)

lemma inf_load:
  "load_h_dataset (world_with inf_dataset) ''/srv/habitat_index_H.nc'' = Inr inf_dataset"
  unfolding inf_dataset_def by (rule load_with)

lemma inf_loaded:
  "var_H_index inf_dataset = Some (grid_of 2 2 [[PInf, Fin 1], [Fin 2, Fin 4]])"
  "coord_lat inf_dataset = Some [Fin 10, Fin 20]"
  "coord_lon inf_dataset = Some [Fin 100, Fin 110]"
  by (simp_all add: inf_dataset_def dataset_of_def)

lemma inf_rows:
  "row (grid_of 2 2 [[PInf, Fin 1], [Fin 2, Fin 4]]) 0 = [PInf, Fin 1]"
  "row (grid_of 2 2 [[PInf, Fin 1], [Fin 2, Fin 4]]) 1 = [Fin 2, Fin 4]"
  "row (grid_of 2 2 [[PInf, Fin 1], [Fin 2, Fin 4]]) (Suc 0) = [Fin 2, Fin 4]"
  by (simp_all add: row_def grid_of_def upt2)

lemma inf_means:
  "nanmean [PInf, Fin 1] = PInf"
  "nanmean [Fin 2, Fin 4] = Fin 3"
  by (simp_all add: mean_eval)

lemma series_inf:
  "series (world_with inf_dataset) ''lat_mean''
   = Inr (LatMean [Fin 10, Fin 20] [None, Some (Fin 3)])"
  unfolding series_lat_mean [OF find_with inf_load inf_loaded(1,2)]
  by (simp add: nanmean_axis1_def grid_of_def upt2 null_unless_finite_def
      inf_rows [unfolded grid_of_def] inf_means)

lemma distances_on_axis:
  "distances [Fin 10, Fin 20] (Fin 10) = [Fin 0, Fin 10]"
  "distances [Fin 100, Fin 110] (Fin 100) = [Fin 0, Fin 10]"
  by (simp_all add: distances_def fsub_def round64_means round64_0)

lemma nearest_index_on_axis:
  "nearest_index [Fin 10, Fin 20] (Fin 10) = Inr 0"
  "nearest_index [Fin 100, Fin 110] (Fin 100) = Inr 0"
  by (simp_all add: nearest_index_def distances_on_axis fge_def clip_def)

lemma predict_inf:
  "predict (world_with inf_dataset) (Fin 10) (Fin 100)
   = Inr (PredictPayload (Fin 10) (Fin 100) NaN 0 0)"
  using predict_loaded [OF find_with inf_load inf_loaded nearest_index_on_axis, of PInf]
  by (simp add: getitem2_def grid_of_def)

text \<open>
  Claim C10. A cell that is not finite should be reported by \<^verbatim>\<open>/predict\<close> as
  not-a-number. The handler puts not-a-number in its answer, which the encoder of the
  response refuses: on the grid whose first cell is infinite the request
  \<^verbatim>\<open>/predict?lat=10&lon=100\<close> ends with status 500, and so does
  \<^verbatim>\<open>/predict?lat=15&lon=110\<close> on the example grid, whose resolved cell is
  not-a-number. The handler of \<^verbatim>\<open>/series\<close> uses the null marker for the same
  purpose, and its answer reaches the client.
\<close>

theorem predict_non_finite_cell:
  "cell (grid_of 2 2 [[PInf, Fin 1], [Fin 2, Fin 4]]) 0 0 = PInf \<and>
   predict (world_with inf_dataset) (Fin 10) (Fin 100)
     = Inr (PredictPayload (Fin 10) (Fin 100) NaN 0 0) \<and>
   get_predict (world_with inf_dataset) (Fin 10) (Fin 100) = HTTP_Error 500 \<and>
   cell example_grid 0 1 = NaN \<and>
   get_predict (world_with example_dataset) (Fin 15) (Fin 110) = HTTP_Error 500 \<and>
   get_series (world_with inf_dataset) ''lat_mean''
     = HTTP_OK (JDict [(''type'', JStr ''lat_mean''),
                       (''lat'', JList [JFloat (Fin 10), JFloat (Fin 20)]),
                       (''H'', JList [JNull, JFloat (Fin 3)])])"
proof -
  have 1: "get_predict (world_with inf_dataset) (Fin 10) (Fin 100) = HTTP_Error 500"
    using get_predict_payload [OF predict_inf] by simp
  have 2: "get_predict (world_with example_dataset) (Fin 15) (Fin 110) = HTTP_Error 500"
    using get_predict_payload [OF predict_example_tie] by simp
  have 3: "get_series (world_with inf_dataset) ''lat_mean''
     = HTTP_OK (JDict [(''type'', JStr ''lat_mean''),
                       (''lat'', JList [JFloat (Fin 10), JFloat (Fin 20)]),
                       (''H'', JList [JNull, JFloat (Fin 3)])])"
    by (simp add: get_series_def series_inf respond_def)
  show ?thesis
    using 1 2 3 predict_inf by (simp add: grid_of_def example_grid_def)
qed

section \<open>The statistics of /analyze\<close>

lemma fle_nan_left [simp]: "fle NaN b = False"
  by simp

lemma fle_nan_right [simp]: "fle a NaN = False"
  by (cases a) auto

lemma fle_not_nan: "fle a b \<Longrightarrow> \<not> isnan a \<and> \<not> isnan b"
  by (cases a; cases b) auto










subsection \<open>Worked statistics\<close>

lemma upt13: "[0..<1] = [0]" "[0..<3] = [0, 1, 2]"
  by (simp_all add: numeral_3_eq_3)

lemma flatten_examples:
  "flatten example_grid = [Fin (1 / 4), NaN, Fin (3 / 4), Fin (1 / 2)]"
  "flatten (grid_of 1 3 [[Fin tenth, Fin tenth, Fin tenth]]) = [Fin tenth, Fin tenth, Fin tenth]"
  "flatten (grid_of 1 2 [[PInf, NInf]]) = [PInf, NInf]"
  "flatten (grid_of 1 1 [[NaN]]) = [NaN]"
  by (simp_all add: flatten_def row_def example_grid_def grid_of_def upt2 upt13)













section \<open>The global histogram of /series\<close>

subsection \<open>The bin edges\<close>

lemma upt11: "[0..<11] = [0, 1, 2, 3, 4, 5, 6, 7, 8, 9, 10 :: nat]"
  by (simp add: eval_nat_numeral)

lemma round64_ints:
  "round64 7 = Fin 7" "round64 8 = Fin 8" "round64 9 = Fin 9"
  using round64_ge1 [of 2 7] round64_ge1 [of 3 8] round64_ge1 [of 3 9]
  by (simp_all add: r64)

lemma round64_products:
  "round64 tenth = Fin tenth"
  "round64 (2 * tenth) = Fin (3602879701896397 / 18014398509481984)"
  "round64 (3 * tenth) = Fin (1351079888211149 / 4503599627370496)"
  "round64 (4 * tenth) = Fin (3602879701896397 / 9007199254740992)"
  "round64 (5 * tenth) = Fin (1 / 2)"
  "round64 (6 * tenth) = Fin (1351079888211149 / 2251799813685248)"
  "round64 (7 * tenth) = Fin (6305039478318695 / 9007199254740992)"
  "round64 (8 * tenth) = Fin (3602879701896397 / 4503599627370496)"
  "round64 (9 * tenth) = Fin (8106479329266893 / 9007199254740992)"
  "round64 (10 * tenth) = Fin 1"
  using round64_lt1 [of 3 tenth] round64_lt1 [of 2 "2 * tenth"] round64_lt1 [of 1 "3 * tenth"]
    round64_lt1 [of 1 "4 * tenth"] round64_lt1 [of 0 "5 * tenth"] round64_lt1 [of 0 "6 * tenth"]
    round64_lt1 [of 0 "7 * tenth"] round64_lt1 [of 0 "8 * tenth"] round64_lt1 [of 0 "9 * tenth"]
    round64_ge1 [of 0 "10 * tenth"]
  by (simp_all add: r64 tenth_def)

lemma round64_edges:
  "round64 (3602879701896397 / 18014398509481984) = Fin (3602879701896397 / 18014398509481984)"
  "round64 (1351079888211149 / 4503599627370496) = Fin (1351079888211149 / 4503599627370496)"
  "round64 (3602879701896397 / 9007199254740992) = Fin (3602879701896397 / 9007199254740992)"
  "round64 (1351079888211149 / 2251799813685248) = Fin (1351079888211149 / 2251799813685248)"
  "round64 (6305039478318695 / 9007199254740992) = Fin (6305039478318695 / 9007199254740992)"
  "round64 (3602879701896397 / 4503599627370496) = Fin (3602879701896397 / 4503599627370496)"
  "round64 (8106479329266893 / 9007199254740992) = Fin (8106479329266893 / 9007199254740992)"
  using round64_lt1 [of 2 "3602879701896397 / 18014398509481984"]
    round64_lt1 [of 1 "1351079888211149 / 4503599627370496"]
    round64_lt1 [of 1 "3602879701896397 / 9007199254740992"]
    round64_lt1 [of 0 "1351079888211149 / 2251799813685248"]
    round64_lt1 [of 0 "6305039478318695 / 9007199254740992"]
    round64_lt1 [of 0 "3602879701896397 / 4503599627370496"]
    round64_lt1 [of 0 "8106479329266893 / 9007199254740992"]
  by (simp_all add: r64)

lemma round64_tenth_quotient: "round64 (1 / 10) = Fin tenth"
  using round64_lt1 [of 3 "1 / 10"] by (simp add: r64 tenth_def)

lemma tenth_nonzero: "tenth \<noteq> 0"
  by (simp add: tenth_def)

lemma linspace_unit: "linspace (Fin 0) (Fin 1) 11 = hist_edges"
  by (simp add: linspace_def Let_def fsub_def upt11 round64_means round64_ints
      round64_tenth_quotient tenth_nonzero round64_products round64_edges round64_def [of 0]
      hist_edges_def)

subsection \<open>Every value of the range is in exactly one bin\<close>

lemma half_open_bins:
  fixes es :: "real list"
  assumes "sorted es" and "n < length es"
  shows "(\<Sum>k\<leftarrow>[0..<n]. if es ! k \<le> x \<and> x < es ! Suc k then 1 else 0)
         = (if es ! 0 \<le> x \<and> x < es ! n then (1::nat) else 0)"
  using assms(2)
proof (induction n)
  case 0
  then show ?case by simp
next
  case (Suc n)
  have a: "es ! 0 \<le> es ! n" and b: "es ! n \<le> es ! Suc n"
    using assms(1) Suc.prems by (simp_all add: sorted_iff_nth_mono)
  from Suc have ih: "(\<Sum>k\<leftarrow>[0..<n]. if es ! k \<le> x \<and> x < es ! Suc k then 1 else 0)
         = (if es ! 0 \<le> x \<and> x < es ! n then (1::nat) else 0)" by simp
  show ?case using a b by (simp add: ih)
qed

lemma closed_last_bin:
  fixes es :: "real list"
  assumes "sorted es" and "length es = Suc (Suc n)"
  shows "(\<Sum>k\<leftarrow>[0..<Suc n].
            if es ! k \<le> x \<and> (if Suc k = Suc n then x \<le> es ! Suc k else x < es ! Suc k)
            then 1 else 0)
         = (if es ! 0 \<le> x \<and> x \<le> es ! Suc n then (1::nat) else 0)"
proof -
  define f :: "nat \<Rightarrow> nat" where
    "f k = (if es ! k \<le> x \<and> (if Suc k = Suc n then x \<le> es ! Suc k else x < es ! Suc k)
            then 1 else 0)" for k
  define g :: "nat \<Rightarrow> nat" where
    "g k = (if es ! k \<le> x \<and> x < es ! Suc k then 1 else 0)" for k
  have h: "(\<Sum>k\<leftarrow>[0..<n]. g k) = (if es ! 0 \<le> x \<and> x < es ! n then (1::nat) else 0)"
    unfolding g_def by (rule half_open_bins [OF assms(1)]) (simp add: assms(2))
  have e: "(\<Sum>k\<leftarrow>[0..<n]. f k) = (\<Sum>k\<leftarrow>[0..<n]. g k)"
    by (rule arg_cong [where f = sum_list]) (rule map_cong, simp_all add: f_def g_def)
  have l: "f n = (if es ! n \<le> x \<and> x \<le> es ! Suc n then 1 else 0)"
    by (simp add: f_def)
  have a: "es ! 0 \<le> es ! n" and b: "es ! n \<le> es ! Suc n"
    using assms by (simp_all add: sorted_iff_nth_mono)
  have "(\<Sum>k\<leftarrow>[0..<Suc n]. f k) = (\<Sum>k\<leftarrow>[0..<n]. g k) + f n"
    using e by simp
  also have "\<dots> = (if es ! 0 \<le> x \<and> x \<le> es ! Suc n then (1::nat) else 0)"
    unfolding h l using a b by simp
  finally show ?thesis unfolding f_def .
qed

lemma counts_by_element:
  "(\<Sum>k\<leftarrow>ks. length (filter (P k) arr))
   = (\<Sum>x\<leftarrow>arr. \<Sum>k\<leftarrow>ks. if P k x then 1 else 0)"
proof (induction arr)
  case Nil
  then show ?case by simp
next
  case (Cons x xs)
  have "(\<Sum>k\<leftarrow>ks. length (filter (P k) (x # xs)))
        = (\<Sum>k\<leftarrow>ks. (if P k x then 1 else 0) + length (filter (P k) xs))"
    by (rule arg_cong [where f = sum_list]) (rule map_cong, simp_all)
  also have "\<dots> = (\<Sum>k\<leftarrow>ks. if P k x then 1 else 0) + (\<Sum>k\<leftarrow>ks. length (filter (P k) xs))"
    by (simp add: sum_list_addf)
  finally show ?case using Cons.IH by simp
qed

lemma upt10: "[0..<10] = [0, 1, 2, 3, 4, 5, 6, 7, 8, 9 :: nat]"
  by (simp add: eval_nat_numeral)

lemma flt_Fin [simp]: "flt (Fin a) (Fin b) = (a < b)"
  by (auto simp: flt_def)

lemma flt_imp_fle: "flt a b \<Longrightarrow> fle a b"
  by (simp add: flt_def)

lemma hist_edges_reals:
  "\<exists>es. hist_edges = map Fin es \<and> sorted es \<and> length es = Suc (Suc 9) \<and>
        es ! 0 = 0 \<and> es ! Suc 9 = 1"
proof (intro exI conjI)
  let ?es = "[0, tenth, 3602879701896397 / 18014398509481984,
      1351079888211149 / 4503599627370496, 3602879701896397 / 9007199254740992,
      1 / 2, 1351079888211149 / 2251799813685248,
      6305039478318695 / 9007199254740992, 3602879701896397 / 4503599627370496,
      8106479329266893 / 9007199254740992, 1 :: real]"
  show "hist_edges = map Fin ?es" by (simp add: hist_edges_def)
  show "sorted ?es" by (simp add: tenth_def)
  show "length ?es = Suc (Suc 9)" by simp
  show "?es ! 0 = 0" by simp
  show "?es ! Suc 9 = 1" by (simp add: eval_nat_numeral)
qed

lemma in_bin_reals:
  assumes "k < 10" and "length es = Suc (Suc 9)"
  shows "in_bin (map Fin es) 10 k (Fin x)
         = (es ! k \<le> x \<and> (if Suc k = Suc 9 then x \<le> es ! Suc k else x < es ! Suc k))"
  using assms by (auto simp: in_bin_def)

lemma bins_of_finite:
  "(\<Sum>k\<leftarrow>[0..<10]. if in_bin hist_edges 10 k (Fin x) then 1 else 0)
   = (if 0 \<le> x \<and> x \<le> 1 then (1::nat) else 0)"
proof -
  from hist_edges_reals obtain es where
    es: "hist_edges = map Fin es" "sorted es" "length es = Suc (Suc 9)"
      "es ! 0 = 0" "es ! Suc 9 = 1" by blast
  have "(\<Sum>k\<leftarrow>[0..<10]. if in_bin hist_edges 10 k (Fin x) then 1 else 0)
        = (\<Sum>k\<leftarrow>[0..<10]. if es ! k \<le> x \<and>
              (if Suc k = Suc 9 then x \<le> es ! Suc k else x < es ! Suc k) then (1::nat) else 0)"
    unfolding es(1)
    by (rule arg_cong [where f = sum_list], rule map_cong)
       (simp_all add: in_bin_reals [OF _ es(3)])
  also have "[0..<10] = [0..<Suc 9]" by simp
  finally show ?thesis
    using closed_last_bin [OF es(2,3), of x] es(4,5) by simp
qed

lemma bins_of_cell:
  assumes "isfinite c"
  shows "(\<Sum>k\<leftarrow>[0..<10]. if in_bin hist_edges 10 k c then 1 else 0)
         = (if in_unit c then (1::nat) else 0)"
  using assms bins_of_finite by (cases c) (simp_all add: in_unit_def)

lemma count_filter: "(\<Sum>x\<leftarrow>xs. if P x then 1 else 0) = length (filter P xs)"
  by (induction xs) simp_all

lemma filter_in_unit: "filter in_unit (filter isfinite xs) = filter in_unit xs"
  by (induction xs) (simp_all add: in_unit_def)

lemma counts_sum:
  "sum_list (map (\<lambda>k. length (filter (in_bin hist_edges 10 k) (filter isfinite xs))) [0..<10])
   = length (filter in_unit xs)"
proof -
  let ?arr = "filter isfinite xs"
  have "sum_list (map (\<lambda>k. length (filter (in_bin hist_edges 10 k) ?arr)) [0..<10])
        = (\<Sum>c\<leftarrow>?arr. \<Sum>k\<leftarrow>[0..<10]. if in_bin hist_edges 10 k c then 1 else 0)"
    by (rule counts_by_element)
  also have "\<dots> = (\<Sum>c\<leftarrow>?arr. if in_unit c then 1 else 0)"
    by (rule arg_cong [where f = sum_list], rule map_cong) (simp_all add: bins_of_cell)
  also have "\<dots> = length (filter in_unit ?arr)" by (rule count_filter)
  finally show ?thesis unfolding filter_in_unit .
qed

lemma in_bin_range:
  assumes "k < 10" and "in_bin hist_edges 10 k c"
  shows "fle (Fin 0) c \<and> fle c (Fin 1)"
proof -
  from hist_edges_reals obtain es where
    es: "hist_edges = map Fin es" "sorted es" "length es = Suc (Suc 9)"
      "es ! 0 = 0" "es ! Suc 9 = 1" by blast
  have k: "k < length es" "Suc k < length es" using assms(1) es(3) by simp_all
  have "es ! 0 \<le> es ! k"
    using es(2) k by (simp add: sorted_iff_nth_mono)
  then have lo: "fle (Fin 0) (hist_edges ! k)"
    unfolding es(1) using es(4) k(1) by simp
  have "es ! Suc k \<le> es ! Suc 9"
    using es(2,3) assms(1) by (simp add: sorted_iff_nth_mono)
  then have hi: "fle (hist_edges ! Suc k) (Fin 1)"
    unfolding es(1) using es(5) k(2) by simp
  have a: "fle (hist_edges ! k) c" and b: "fle c (hist_edges ! Suc k)"
    using assms(2) by (auto simp: in_bin_def flt_imp_fle split: if_splits)
  show ?thesis using fle_trans [OF lo a] fle_trans [OF b hi] by simp
qed

lemma bins_sorted: "length (butlast hist_edges) = 10 \<and> sorted_wrt flt (butlast hist_edges)"
  by (simp add: hist_edges_def tenth_def)

lemma global_histogram_eval:
  "global_histogram H =
     (if list_ex isfinite (flatten H)
      then Global (butlast hist_edges)
             (map (\<lambda>k. length (filter (in_bin hist_edges 10 k) (filter isfinite (flatten H))))
                [0..<10])
      else Global [] [])"
proof -
  have e: "(filter isfinite (flatten H) = []) = (\<not> list_ex isfinite (flatten H))"
    by (simp add: filter_empty_conv list_ex_iff)
  show ?thesis
    by (simp add: global_histogram_def Let_def e histogram_def linspace_unit)
qed

lemma series_global:
  assumes "find_data_file w = Some p" and "load_h_dataset w p = Inr ds"
    and "var_H_index ds = Some H"
  shows "series w ''global'' = Inr (global_histogram H)"
  using assms by (simp add: series_def series_try_def)

subsection \<open>The response\<close>

text \<open>
  Claim C2, as amended. For every loaded grid, the counts \<^verbatim>\<open>/series\<close> returns for the
  global histogram add up to the number of finite cells lying in the closed range from 0
  to 1, and a value outside that range is in no bin. When the grid has a finite cell the
  bins returned are the ten left edges of \<^verbatim>\<open>np.linspace(0.0, 1.0, 11)\<close>, in strictly
  ascending order, with one count per bin; when it has none, bins and counts are both
  empty.
\<close>

theorem series_global_histogram:
  assumes "find_data_file w = Some p" and "load_h_dataset w p = Inr ds"
    and "var_H_index ds = Some H"
  shows "\<exists>bins counts.
           series w ''global'' = Inr (Global bins counts) \<and>
           sum_list counts = length (filter in_unit (flatten H)) \<and>
           (if list_ex isfinite (flatten H)
            then bins = butlast hist_edges \<and> length bins = 10 \<and> sorted_wrt flt bins \<and>
                 linspace (Fin 0) (Fin 1) 11 = hist_edges \<and>
                 counts = map (\<lambda>k. length (filter (in_bin hist_edges 10 k)
                                        (filter isfinite (flatten H)))) [0..<10]
            else bins = [] \<and> counts = []) \<and>
           (\<forall>k c. k < 10 \<and> in_bin hist_edges 10 k c \<longrightarrow> fle (Fin 0) c \<and> fle c (Fin 1))"
proof -
  let ?counts = "map (\<lambda>k. length (filter (in_bin hist_edges 10 k)
                                        (filter isfinite (flatten H)))) [0..<10]"
  have r: "\<forall>k c. k < 10 \<and> in_bin hist_edges 10 k c \<longrightarrow> fle (Fin 0) c \<and> fle c (Fin 1)"
    using in_bin_range by blast
  show ?thesis
  proof (cases "list_ex isfinite (flatten H)")
    case True
    have s: "series w ''global'' = Inr (Global (butlast hist_edges) ?counts)"
      unfolding series_global [OF assms] global_histogram_eval using True by simp
    have n: "sum_list ?counts = length (filter in_unit (flatten H))"
      by (rule counts_sum)
    show ?thesis
    proof (intro exI conjI)
      show "series w ''global'' = Inr (Global (butlast hist_edges) ?counts)" by (rule s)
      show "sum_list ?counts = length (filter in_unit (flatten H))" by (rule n)
      show "if list_ex isfinite (flatten H)
            then butlast hist_edges = butlast hist_edges \<and> length (butlast hist_edges) = 10 \<and>
                 sorted_wrt flt (butlast hist_edges) \<and>
                 linspace (Fin 0) (Fin 1) 11 = hist_edges \<and> ?counts = ?counts
            else butlast hist_edges = [] \<and> ?counts = []"
        using True bins_sorted linspace_unit by simp
      show "\<forall>k c. k < 10 \<and> in_bin hist_edges 10 k c \<longrightarrow> fle (Fin 0) c \<and> fle c (Fin 1)"
        by (rule r)
    qed
  next
    case False
    have s: "series w ''global'' = Inr (Global [] [])"
      unfolding series_global [OF assms] global_histogram_eval using False by simp
    have "filter in_unit (flatten H) = []"
      using False by (auto simp: filter_empty_conv list_ex_iff in_unit_def)
    then have n: "sum_list ([] :: nat list) = length (filter in_unit (flatten H))" by simp
    show ?thesis
    proof (intro exI conjI)
      show "series w ''global'' = Inr (Global [] [])" by (rule s)
      show "sum_list ([] :: nat list) = length (filter in_unit (flatten H))" by (rule n)
      show "if list_ex isfinite (flatten H)
            then [] = butlast hist_edges \<and> length ([] :: fval list) = 10 \<and>
                 sorted_wrt flt [] \<and>
                 linspace (Fin 0) (Fin 1) 11 = hist_edges \<and> [] = ?counts
            else ([] :: fval list) = [] \<and> ([] :: nat list) = []"
        using False by simp
      show "\<forall>k c. k < 10 \<and> in_bin hist_edges 10 k c \<longrightarrow> fle (Fin 0) c \<and> fle c (Fin 1)"
        by (rule r)
    qed
  qed
qed

lemma hist_load:
  "load_h_dataset (world_with hist_dataset) ''/srv/habitat_index_H.nc'' = Inr hist_dataset"
  unfolding hist_dataset_def by (rule load_with)

lemma nan_load:
  "load_h_dataset (world_with nan_dataset) ''/srv/habitat_index_H.nc'' = Inr nan_dataset"
  unfolding nan_dataset_def by (rule load_with)

lemma hist_vars:
  "var_H_index hist_dataset
   = Some (grid_of 2 3 [[Fin (1 / 4), NaN, Fin 2], [Fin 1, PInf, Fin (- 1)]])"
  "var_H_index nan_dataset = Some (grid_of 1 1 [[NaN]])"
  by (simp_all add: hist_dataset_def nan_dataset_def dataset_of_def)

lemma hist_flatten:
  "flatten (grid_of 2 3 [[Fin (1 / 4), NaN, Fin 2], [Fin 1, PInf, Fin (- 1)]])
   = [Fin (1 / 4), NaN, Fin 2, Fin 1, PInf, Fin (- 1)]"
  by (simp add: flatten_def row_def grid_of_def upt2 upt13)

lemma hist_counts:
  "map (\<lambda>k. length (filter (in_bin hist_edges 10 k) [Fin (1 / 4), Fin 2, Fin 1, Fin (- 1)]))
     [0..<10]
   = [0, 0, 1, 0, 0, 0, 0, 0, 0, 1]"
  by (simp add: upt10 in_bin_def hist_edges_def tenth_def)

theorem series_global_histogram_witness:
  "find_data_file (world_with hist_dataset) = Some ''/srv/habitat_index_H.nc'' \<and>
   load_h_dataset (world_with hist_dataset) ''/srv/habitat_index_H.nc'' = Inr hist_dataset \<and>
   var_H_index hist_dataset
     = Some (grid_of 2 3 [[Fin (1 / 4), NaN, Fin 2], [Fin 1, PInf, Fin (- 1)]]) \<and>
   series (world_with hist_dataset) ''global''
     = Inr (Global (butlast hist_edges) [0, 0, 1, 0, 0, 0, 0, 0, 0, 1]) \<and>
   length (filter in_unit [Fin (1 / 4), NaN, Fin 2, Fin 1, PInf, Fin (- 1)]) = 2"
proof -
  let ?H = "grid_of 2 3 [[Fin (1 / 4), NaN, Fin 2], [Fin 1, PInf, Fin (- 1)]]"
  have f: "list_ex isfinite (flatten ?H)" by (simp add: hist_flatten)
  from series_global_histogram [OF find_with hist_load hist_vars(1)] f
  obtain bins counts where
    s: "series (world_with hist_dataset) ''global'' = Inr (Global bins counts)"
    and n: "sum_list counts = length (filter in_unit (flatten ?H))"
    and b: "bins = butlast hist_edges"
    and c: "counts = map (\<lambda>k. length (filter (in_bin hist_edges 10 k)
                                        (filter isfinite (flatten ?H)))) [0..<10]"
    by auto
  have arr: "filter isfinite (flatten ?H) = [Fin (1 / 4), Fin 2, Fin 1, Fin (- 1)]"
    by (simp add: hist_flatten)
  have c': "counts = [0, 0, 1, 0, 0, 0, 0, 0, 0, 1]"
    unfolding c arr by (rule hist_counts)
  have "length (filter in_unit [Fin (1 / 4), NaN, Fin 2, Fin 1, PInf, Fin (- 1)]) = 2"
    using n unfolding c' hist_flatten by simp
  then show ?thesis
    using find_with hist_load hist_vars(1) s b c' by simp
qed

text \<open>
  The claim as stated fails on a grid without a finite cell: the bins returned are the
  empty list, not the ten left edges.
\<close>

theorem series_global_empty_counterexample:
  "series (world_with nan_dataset) ''global'' = Inr (Global [] []) \<and>
   length (butlast hist_edges) = 10"
proof -
  have "\<not> list_ex isfinite (flatten (grid_of 1 1 [[NaN]]))"
    unfolding flatten_examples by simp
  then have "series (world_with nan_dataset) ''global'' = Inr (Global [] [])"
    unfolding series_global [OF find_with nan_load hist_vars(2)] global_histogram_eval
    by simp
  then show ?thesis using bins_sorted by simp
qed

section \<open>An aggregation that is not known\<close>

lemma global_histogram_form: "\<exists>bins counts. global_histogram H = Global bins counts"
  by (simp add: global_histogram_eval)

lemma global_histogram_ok: "json_ok (series_json (global_histogram H))"
  by (simp add: global_histogram_eval hist_edges_def list_all_iff)

lemma get_series_default:
  assumes "find_data_file w = Some p" and "load_h_dataset w p = Inr ds"
    and "var_H_index ds = Some H" and "series w agg = series w ''global''"
  shows "get_series w agg = HTTP_OK (series_json (global_histogram H))"
  by (simp add: get_series_def assms(4) series_global [OF assms(1-3)] respond_def
      global_histogram_ok)

text \<open>
  Claim C5. An aggregation string that is neither \<^verbatim>\<open>lat_mean\<close> nor \<^verbatim>\<open>lon_mean\<close>
  gives exactly what \<^verbatim>\<open>global\<close> gives, from the handler and to the client. With a
  dataset that loads this is the global histogram, sent with status 200: no string is
  rejected.
\<close>

theorem series_unknown_agg:
  assumes "agg \<noteq> ''lat_mean''" and "agg \<noteq> ''lon_mean''"
  shows "series w agg = series w ''global'' \<and> get_series w agg = get_series w ''global'' \<and>
         (\<forall>p ds H. find_data_file w = Some p \<and> load_h_dataset w p = Inr ds \<and>
                   var_H_index ds = Some H \<longrightarrow>
            series w agg = Inr (global_histogram H) \<and>
            (\<exists>bins counts. series w agg = Inr (Global bins counts)) \<and>
            get_series w agg = HTTP_OK (series_json (global_histogram H)))"
proof -
  have e: "series w agg = series w ''global''"
    unfolding series_def by (subst series_try_default [OF assms]) simp
  have g: "get_series w agg = get_series w ''global''"
    unfolding get_series_def e ..
  have l: "series w agg = Inr (global_histogram H) \<and>
           (\<exists>bins counts. series w agg = Inr (Global bins counts)) \<and>
           get_series w agg = HTTP_OK (series_json (global_histogram H))"
    if "find_data_file w = Some p" "load_h_dataset w p = Inr ds" "var_H_index ds = Some H"
    for p ds H
    using series_global [OF that] get_series_default [OF that e] global_histogram_form [of H]
    unfolding e by auto
  show ?thesis using e g l by blast
qed

theorem series_unknown_agg_witness:
  "''median'' \<noteq> ''lat_mean'' \<and> ''median'' \<noteq> ''lon_mean'' \<and>
   find_data_file (world_with hist_dataset) = Some ''/srv/habitat_index_H.nc'' \<and>
   load_h_dataset (world_with hist_dataset) ''/srv/habitat_index_H.nc'' = Inr hist_dataset \<and>
   var_H_index hist_dataset
     = Some (grid_of 2 3 [[Fin (1 / 4), NaN, Fin 2], [Fin 1, PInf, Fin (- 1)]]) \<and>
   series (world_with hist_dataset) ''median''
     = Inr (Global (butlast hist_edges) [0, 0, 1, 0, 0, 0, 0, 0, 0, 1]) \<and>
   series (world_with hist_dataset) ''global''
     = Inr (Global (butlast hist_edges) [0, 0, 1, 0, 0, 0, 0, 0, 0, 1]) \<and>
   get_series (world_with hist_dataset) ''median''
     = HTTP_OK (series_json (Global (butlast hist_edges) [0, 0, 1, 0, 0, 0, 0, 0, 0, 1]))"
proof -
  let ?H = "grid_of 2 3 [[Fin (1 / 4), NaN, Fin 2], [Fin 1, PInf, Fin (- 1)]]"
  have a: "''median'' \<noteq> ''lat_mean''" and b: "''median'' \<noteq> ''lon_mean''" by simp_all
  have arr: "filter isfinite (flatten ?H) = [Fin (1 / 4), Fin 2, Fin 1, Fin (- 1)]"
    by (simp add: hist_flatten)
  have h: "global_histogram ?H = Global (butlast hist_edges) [0, 0, 1, 0, 0, 0, 0, 0, 0, 1]"
    unfolding global_histogram_eval arr hist_counts by (simp add: hist_flatten)
  from series_unknown_agg [OF a b, of "world_with hist_dataset"]
  have e: "series (world_with hist_dataset) ''median'' = series (world_with hist_dataset) ''global''"
    and l: "series (world_with hist_dataset) ''median'' = Inr (global_histogram ?H)"
      "get_series (world_with hist_dataset) ''median'' = HTTP_OK (series_json (global_histogram ?H))"
    using find_with hist_load hist_vars(1) by blast+
  show ?thesis
    using a b find_with hist_load hist_vars(1) e l unfolding h by simp
qed

end
